theory Spec2Isabelle
  imports Main "HOL-Library.Word"
begin

unbundle bit_operations_syntax

section \<open>The type lattice (package types)\<close>

text \<open>
  \<^verbatim>\<open>type Enum int\<close> with sixteen named constants. The datatype holds exactly the
  named constants, so the \<^verbatim>\<open>default: panic("unknown Enum")\<close> branch of
  \<^verbatim>\<open>Super\<close> has no counterpart: no value of the type reaches it.
\<close>

datatype Enum =
    EnumAny | EnumBoolean | EnumString | EnumCharacter | EnumSymbol
  | EnumBytevector | EnumNumber | EnumExactInteger | EnumInexactInteger
  | EnumExactFloat | EnumInexactFloat | EnumPort | EnumLambda | EnumPair
  | EnumList | EnumVector

text \<open>\<^verbatim>\<open>func (e Enum) Super() Enum\<close>, one equation per label of the switch.\<close>

fun Super :: "Enum \<Rightarrow> Enum" where
  "Super EnumAny = EnumAny"
| "Super EnumBoolean = EnumAny"
| "Super EnumString = EnumAny"
| "Super EnumCharacter = EnumAny"
| "Super EnumSymbol = EnumAny"
| "Super EnumBytevector = EnumAny"
| "Super EnumNumber = EnumAny"
| "Super EnumPort = EnumAny"
| "Super EnumLambda = EnumAny"
| "Super EnumPair = EnumAny"
| "Super EnumList = EnumAny"
| "Super EnumVector = EnumAny"
| "Super EnumExactInteger = EnumNumber"
| "Super EnumExactFloat = EnumNumber"
| "Super EnumInexactInteger = EnumExactInteger"
| "Super EnumInexactFloat = EnumExactFloat"

text \<open>The number of \<open>Super\<close> steps up to \<open>EnumAny\<close>; only the termination proofs use it.\<close>

fun height :: "Enum \<Rightarrow> nat" where
  "height EnumAny = 0"
| "height EnumExactInteger = 2"
| "height EnumExactFloat = 2"
| "height EnumInexactInteger = 3"
| "height EnumInexactFloat = 3"
| "height _ = 1"

text \<open>
  The inner loop of \<^verbatim>\<open>Unify\<close>:
  \<^verbatim>\<open>for oIter := o; ; oIter = oIter.Super() {
      if eIter == oIter { return eIter }
      if oIter == EnumAny { break } }\<close>
  \<open>True\<close> when the loop returns \<open>eIter\<close>, \<open>False\<close> when it breaks.
\<close>

function Unify_inner :: "Enum \<Rightarrow> Enum \<Rightarrow> bool" where
  "Unify_inner eIter oIter =
     (if eIter = oIter then True
      else if oIter = EnumAny then False
      else Unify_inner eIter (Super oIter))"
  by pat_completeness auto

text \<open>
  The outer loop of \<^verbatim>\<open>Unify\<close>:
  \<^verbatim>\<open>for eIter := e; ; eIter = eIter.Super() { ... }\<close>.
  It has no exit of its own; it ends because the inner loop returns at \<open>EnumAny\<close>.
\<close>

function Unify :: "Enum \<Rightarrow> Enum \<Rightarrow> Enum" where
  "Unify e oth = (if Unify_inner e oth then e else Unify (Super e) oth)"
  by pat_completeness auto

text \<open>
  The supertype tree, read off \<open>Super\<close>: the chain from a type up to the root, and
  the relation "a is the type e or one of its supertypes".
\<close>

function ancestors :: "Enum \<Rightarrow> Enum list" where
  "ancestors e = (if e = EnumAny then [EnumAny] else e # ancestors (Super e))"
  by pat_completeness auto

definition is_ancestor :: "Enum \<Rightarrow> Enum \<Rightarrow> bool" where
  "is_ancestor a e = (a \<in> set (ancestors e))"

section \<open>Values (packages scm and scheme)\<close>

text \<open>
  \<^verbatim>\<open>type Number struct { Base int; Value interface{} }\<close>. \<^verbatim>\<open>NewNumber\<close> stores an
  \<^verbatim>\<open>int64\<close> or a \<^verbatim>\<open>*big.Int\<close> and panics on every other dynamic type; \<open>Unsupported\<close>
  stands for such another dynamic type, which the \<^verbatim>\<open>default\<close> branches of the
  type switches of \<^verbatim>\<open>Equal\<close> and of the builtins receive.
\<close>

datatype numvalue = I64 "64 word" | Big int | Unsupported

record number =
  Base :: int
  Value :: numvalue

text \<open>
  \<^verbatim>\<open>type Lambda struct { MinArgs int; MaxArgs int; Native Native; ... }\<close> of the
  virtual machine. \<open>Native\<close> is a function pointer: \<open>None\<close> is \<^verbatim>\<open>nil\<close>, \<open>Some n\<close>
  the \<open>n\<close>-th native function of the table the machine is run with. \<open>Code\<close> is the
  slice \<^verbatim>\<open>vm.compiled[I:J]\<close> that \<^verbatim>\<open>OpLambda\<close> stores, kept as its two bounds.
\<close>

record lambda =
  MinArgs :: int
  MaxArgs :: int
  Native :: "nat option"
  Code :: "(int \<times> int) option"

text \<open>\<^verbatim>\<open>type Frame struct { Next int; Lambda *Lambda; Toplevel bool }\<close>.\<close>

record frame =
  Next :: int
  Lambda :: "lambda option"
  Toplevel :: bool

text \<open>
  The \<^verbatim>\<open>Value\<close> interface, as the closed sum of the implementations the modelled
  functions meet. \<open>VNil\<close> is the \<^verbatim>\<open>nil\<close> interface Value. A \<^verbatim>\<open>String\<close> is a Go string
  holding valid UTF-8, kept as its sequence of code points, so that
  \<^verbatim>\<open>[]rune(string(s))\<close> is the sequence itself and \<^verbatim>\<open>len(s)\<close> is the sum of the
  encoded widths (\<open>byte_len\<close> below). A \<^verbatim>\<open>ByteVector\<close> is a Go slice \<^verbatim>\<open>[]byte\<close>, a
  reference to a backing array: it is kept as the address of the array in a store, so
  that two values naming the same bytevector are told from two bytevectors of equal
  contents.
\<close>

datatype Value =
    VNil
  | VBoolean bool
  | VCharacter nat
  | VNumber number
  | VString "nat list"
  | VIdentifier string
  | VByteVector nat
  | VLambda lambda
  | VFrame frame

text \<open>
  Errors as values. \<open>Errorf m\<close> is an error made by \<^verbatim>\<open>fmt.Errorf\<close> or \<^verbatim>\<open>l.Errorf\<close> at a
  place of the modelled code, named by the fixed part of its message. \<open>NativeErr m\<close> is
  an error a native function handed back to the virtual machine. \<open>Panic\<close> is a Go
  run-time panic (index or slice bounds out of range, nil dereference, an explicit
  \<^verbatim>\<open>panic\<close>).
\<close>

datatype error = Panic | Errorf string | NativeErr string

text \<open>\<^verbatim>\<open>args[i]\<close> on the argument slice of a native function.\<close>

definition arg :: "Value list \<Rightarrow> nat \<Rightarrow> error + Value" where
  "arg args i = (if i < length args then Inr (args ! i) else Inl Panic)"

text \<open>
  A slice expression \<^verbatim>\<open>a[lo:hi]\<close> on a slice of capacity \<open>cap\<close> panics unless
  \<open>0 \<le> lo \<le> hi \<le> cap\<close>; otherwise it denotes the elements at positions
  \<open>lo, ..., hi - 1\<close> of the backing array.
\<close>

definition slice_ok :: "int \<Rightarrow> int \<Rightarrow> nat \<Rightarrow> bool" where
  "slice_ok lo hi cap = (0 \<le> lo \<and> lo \<le> hi \<and> hi \<le> int cap)"

definition slice :: "'a list \<Rightarrow> int \<Rightarrow> int \<Rightarrow> 'a list" where
  "slice xs lo hi = take (nat (hi - lo)) (drop (nat lo) xs)"

text \<open>
  Modelled from the spec: \<^verbatim>\<open>Int64(v Value) (int64, error)\<close> is called by the builtins
  and is not among the source files. The builtins below take it as the parameter
  \<open>Int64\<close>; \<open>Int64_exact\<close> is the instance used at concrete inputs, which reads a Number
  holding an \<^verbatim>\<open>int64\<close> as that integer and refuses every other value.
\<close>

definition Int64_exact :: "Value \<Rightarrow> error + 64 word" where
  "Int64_exact v =
     (case v of
        VNumber n \<Rightarrow> (case Value n of I64 w \<Rightarrow> Inr w | _ \<Rightarrow> Inl (Errorf ''invalid number''))
      | _ \<Rightarrow> Inl (Errorf ''invalid number''))"

section \<open>Numbers (package scheme)\<close>





section \<open>Strings (package scheme)\<close>

text \<open>The number of bytes of the UTF-8 encoding of a code point, and \<^verbatim>\<open>len(s)\<close> of a string.\<close>

definition RuneLen :: "nat \<Rightarrow> nat" where
  "RuneLen r = (if r < 0x80 then 1 else if r < 0x800 then 2 else if r < 0x10000 then 3 else 4)"

definition byte_len :: "nat list \<Rightarrow> nat" where
  "byte_len s = sum_list (map RuneLen s)"

text \<open>
  The builtin \<^verbatim>\<open>substring\<close>. \<open>str\<close> is \<^verbatim>\<open>[]rune(string(strv))\<close>; the capacity of that
  slice is the implementation's choice, at least its length, and \<open>spare\<close> is what the
  backing array holds past the length. The validation compares \<^verbatim>\<open>end\<close> with
  \<^verbatim>\<open>int64(len(strv))\<close>, the length in bytes; the slice expression
  \<^verbatim>\<open>str[start:end]\<close> is on the code points.
\<close>

definition substring :: "(Value \<Rightarrow> error + 64 word) \<Rightarrow> nat list \<Rightarrow> Value list \<Rightarrow> error + Value" where
  "substring Int64 spare args =
     (case arg args 0 of Inl e \<Rightarrow> Inl e | Inr a0 \<Rightarrow>
      (case a0 of
         VString strv \<Rightarrow>
           (let str = strv in
            case arg args 1 of Inl e \<Rightarrow> Inl e | Inr a1 \<Rightarrow>
            (case Int64 a1 of Inl _ \<Rightarrow> Inl (Errorf ''invalid start index'') | Inr start \<Rightarrow>
             (case arg args 2 of Inl e \<Rightarrow> Inl e | Inr a2 \<Rightarrow>
              (case Int64 a2 of Inl _ \<Rightarrow> Inl (Errorf ''invalid end index'') | Inr stop \<Rightarrow>
                 if start <s 0 \<or> stop <s start \<or> int (byte_len strv) < sint stop
                 then Inl (Errorf ''invalid indices'')
                 else if slice_ok (sint start) (sint stop) (length str + length spare)
                 then Inr (VString (slice (str @ spare) (sint start) (sint stop)))
                 else Inl Panic))))
       | _ \<Rightarrow> Inl (Errorf ''invalid string'')))"

section \<open>Bytevectors (package scheme)\<close>

text \<open>The store of backing arrays: the contents of the bytevector at each address.\<close>

type_synonym heap = "nat \<Rightarrow> 8 word list"

text \<open>
  \<^verbatim>\<open>func (v ByteVector) Eq(o Value) bool\<close>: true only when both are bytevectors of
  length 0.
\<close>

definition ByteVector_Eq :: "heap \<Rightarrow> nat \<Rightarrow> Value \<Rightarrow> bool" where
  "ByteVector_Eq h v oth =
     (case oth of
        VByteVector ov \<Rightarrow> if length (h v) = 0 \<and> length (h ov) = 0 then True else False
      | _ \<Rightarrow> False)"

text \<open>
  The loop of \<^verbatim>\<open>Equal\<close>, \<^verbatim>\<open>for idx, vv := range v { if vv != ov[idx] { return false } }\<close>,
  from index \<open>idx\<close> on. It runs after the test that the lengths agree, so \<^verbatim>\<open>ov[idx]\<close>
  is in range.
\<close>

function Equal_loop :: "8 word list \<Rightarrow> 8 word list \<Rightarrow> nat \<Rightarrow> bool" where
  "Equal_loop v ov idx =
     (if idx < length v
      then (if v ! idx \<noteq> ov ! idx then False else Equal_loop v ov (idx + 1))
      else True)"
  by pat_completeness auto
termination
  by (relation "measure (\<lambda>(v, ov, idx). length v - idx)") simp_all

declare Equal_loop.simps [simp del]

text \<open>\<^verbatim>\<open>func (v ByteVector) Equal(o Value) bool\<close>.\<close>

definition ByteVector_Equal :: "heap \<Rightarrow> nat \<Rightarrow> Value \<Rightarrow> bool" where
  "ByteVector_Equal h v oth =
     (case oth of
        VByteVector ov \<Rightarrow>
          if length (h v) \<noteq> length (h ov) then False else Equal_loop (h v) (h ov) 0
      | _ \<Rightarrow> False)"

text \<open>
  The builtin \<^verbatim>\<open>bytevector-copy!\<close>, returning its result and the store it leaves.
  The sums \<^verbatim>\<open>sourceStart+k\<close> and \<^verbatim>\<open>targetStart+k\<close> are \<^verbatim>\<open>int64\<close> additions and wrap
  around. The two slice expressions are evaluated, target first, before \<^verbatim>\<open>copy\<close>
  writes; \<^verbatim>\<open>copy\<close> moves the bytes as they were before the call, also when the two
  slices share their array.
\<close>

definition bytevector_copy ::
  "(Value \<Rightarrow> error + 64 word) \<Rightarrow> heap \<Rightarrow> Value list \<Rightarrow> (error + Value) \<times> heap" where
  "bytevector_copy Int64 h args =
     (case arg args 0 of Inl e \<Rightarrow> (Inl e, h) | Inr a0 \<Rightarrow>
     (case a0 of VByteVector source \<Rightarrow>
     (case arg args 2 of Inl e \<Rightarrow> (Inl e, h) | Inr a2 \<Rightarrow>
     (case a2 of VByteVector target \<Rightarrow>
     (case arg args 1 of Inl e \<Rightarrow> (Inl e, h) | Inr a1 \<Rightarrow>
     (case Int64 a1 of Inl _ \<Rightarrow> (Inl (Errorf ''invalid source-start''), h) | Inr sourceStart \<Rightarrow>
       if sourceStart <s 0 then (Inl (Errorf ''invalid source-start''), h) else
     (case arg args 3 of Inl e \<Rightarrow> (Inl e, h) | Inr a3 \<Rightarrow>
     (case Int64 a3 of Inl _ \<Rightarrow> (Inl (Errorf ''invalid target-start''), h) | Inr targetStart \<Rightarrow>
       if targetStart <s 0 then (Inl (Errorf ''invalid target-start''), h) else
     (case arg args 4 of Inl e \<Rightarrow> (Inl e, h) | Inr a4 \<Rightarrow>
     (case Int64 a4 of Inl _ \<Rightarrow> (Inl (Errorf ''invalid k''), h) | Inr k \<Rightarrow>
       if k <s 0 then (Inl (Errorf ''invalid k''), h)
       else if int (length (h source)) < sint (sourceStart + k)
       then (Inl (Errorf ''invalid source range''), h)
       else if int (length (h target)) < sint (targetStart + k)
       then (Inl (Errorf ''invalid target range''), h)
       else if \<not> slice_ok (sint targetStart) (sint (targetStart + k)) (length (h target))
       then (Inl Panic, h)
       else if \<not> slice_ok (sint sourceStart) (sint (sourceStart + k)) (length (h source))
       then (Inl Panic, h)
       else
         (let dst = slice (h target) (sint targetStart) (sint (targetStart + k));
              src = slice (h source) (sint sourceStart) (sint (sourceStart + k));
              n = min (length dst) (length src)
          in (Inr VNil,
              h(target := take (nat (sint targetStart)) (h target) @ take n src @
                          drop (nat (sint targetStart) + n) (h target))))))))))
      | _ \<Rightarrow> (Inl (Errorf ''invalid target''), h)))
      | _ \<Rightarrow> (Inl (Errorf ''invalid source''), h)))"

section \<open>The symbol table of the interpreter (package scheme)\<close>

text \<open>
  An \<^verbatim>\<open>Identifier\<close> of the interpreter, with the fields the modelled functions read
  and write. \<^verbatim>\<open>scm.symbols\<close> is a \<^verbatim>\<open>map[string]*Identifier\<close>; an identifier is reached
  only through the pointer interned under its name, so the map holds the record itself
  and an assignment through the pointer is an update of the map at that name.
\<close>

record Identifier =
  Name :: string
  Global :: Value
  Flags :: "64 word"

type_synonym symbols = "string \<rightharpoonup> Identifier"

text \<open>
  \<^verbatim>\<open>Intern\<close> of the interpreter is not among the source files; it is taken from
  \<^verbatim>\<open>func (vm *VM) Intern(val string) *Identifier\<close> of the virtual machine: look the
  name up, and on a miss store a new identifier that has only its name.
\<close>

definition Intern :: "symbols \<Rightarrow> string \<Rightarrow> Identifier \<times> symbols" where
  "Intern syms val =
     (case syms val of
        Some ident \<Rightarrow> (ident, syms)
      | None \<Rightarrow>
          (let ident = \<lparr>Name = val, Global = VNil, Flags = 0\<rparr>
           in (ident, syms(val \<mapsto> ident))))"

text \<open>
  \<^verbatim>\<open>func (scm *Scheme) Global(name string) (Value, error)\<close>. The flag constants are
  declared outside the source files and are parameters.
\<close>

definition Scheme_Global :: "64 word \<Rightarrow> symbols \<Rightarrow> string \<Rightarrow> error + Value" where
  "Scheme_Global FlagDefined syms name =
     (case syms name of
        None \<Rightarrow> Inl (Errorf ''undefined symbol'')
      | Some ident \<Rightarrow>
          if Flags ident AND FlagDefined = 0 then Inl (Errorf ''undefined symbol'')
          else Inr (Global ident))"

text \<open>\<^verbatim>\<open>func (scm *Scheme) SetGlobal(name string, value Value) error\<close>.\<close>

definition SetGlobal ::
  "64 word \<Rightarrow> 64 word \<Rightarrow> symbols \<Rightarrow> string \<Rightarrow> Value \<Rightarrow> error option \<times> symbols" where
  "SetGlobal FlagDefined FlagConst syms name v =
     (let (ident, syms1) = Intern syms name in
      if Flags ident AND FlagConst \<noteq> 0
      then (Some (Errorf ''can't reset final symbol''), syms1)
      else (None, syms1(name \<mapsto> ident\<lparr>Flags := Flags ident OR FlagDefined, Global := v\<rparr>)))"

section \<open>The virtual machine (package scm)\<close>

text \<open>
  The bytecode operands. The first fifteen are the constants of the virtual machine's
  source file, in its order; the last six are the further operands that the bytecode
  emission of the interpreter names.
\<close>

datatype Operand =
    OpConst | OpDefine | OpLambda | OpLabel | OpLocal | OpGlobal | OpLocalSet
  | OpGlobalSet | OpPushF | OpPopF | OpPushS | OpPopS | OpCall | OpReturn | OpHalt
  | OpEnv | OpEnvSet | OpPushA | OpIf | OpIfNot | OpJmp

text \<open>
  \<^verbatim>\<open>type Instr struct { Op Operand; V Value; I int; J int; Sym *Identifier }\<close>. An
  identifier is reached through the pointer interned under its name, so \<open>Sym\<close> is that
  name, and \<open>None\<close> is the \<^verbatim>\<open>nil\<close> pointer. \<open>From\<close> is the source location that the
  instructions of the interpreter carry (\<open>None\<close> is \<^verbatim>\<open>nil\<close>); the virtual machine does
  not read it.
\<close>

record Instr =
  Op :: Operand
  V :: Value
  I :: int
  J :: int
  Sym :: "string option"
  From :: "nat option"

text \<open>
  \<^verbatim>\<open>type VM struct\<close>: the fields that \<^verbatim>\<open>Execute\<close> reads or writes. \<open>globals\<close> gives
  the \<^verbatim>\<open>Global\<close> field of the identifier interned under each name (\<open>VNil\<close> for an
  identifier that was given none).
\<close>

record VM =
  compiled :: "Instr list"
  pc :: int
  fp :: int
  accu :: Value
  stack :: "Value list list"
  globals :: "string \<Rightarrow> Value"

text \<open>
  The table of native functions, \<^verbatim>\<open>func(vm *VM, args []Value) (Value, error)\<close>: both
  results of a call, the error being \<^verbatim>\<open>nil\<close> (\<open>None\<close>) or its message. A native
  function computes from its arguments; it does not reach into the machine's stack or
  registers.
\<close>

type_synonym natives = "nat \<Rightarrow> Value list \<Rightarrow> Value \<times> string option"

text \<open>How one instruction ends: the loop goes on, \<^verbatim>\<open>Execute\<close> returns a value, or it fails.\<close>

datatype status = Running | Returned Value | Failed error

text \<open>\<^verbatim>\<open>func (vm *VM) pushScope(size int)\<close>; \<^verbatim>\<open>make\<close> panics on a negative size.\<close>

definition pushScope :: "int \<Rightarrow> VM \<Rightarrow> error + VM" where
  "pushScope sz vm =
     (if sz < 0 then Inl Panic
      else Inr (vm\<lparr>stack := stack vm @ [replicate (nat sz) VNil]\<rparr>))"

text \<open>
  The frame that the scope at index \<open>i\<close> of the stack holds, when \<open>i\<close> is in range
  and the scope has exactly one value, a \<^verbatim>\<open>*Frame\<close>: the test "Check that frame is
  valid" of \<^verbatim>\<open>pushFrame\<close> and \<^verbatim>\<open>popFrame\<close>, which panic otherwise.
\<close>

definition frame_of :: "Value list list \<Rightarrow> int \<Rightarrow> frame option" where
  "frame_of st i =
     (if 0 \<le> i \<and> i < int (length st)
      then (case st ! nat i of [VFrame f] \<Rightarrow> Some f | _ \<Rightarrow> None)
      else None)"

text \<open>\<^verbatim>\<open>func (vm *VM) pushFrame(lambda *Lambda, toplevel bool) *Frame\<close>.\<close>

definition pushFrame :: "lambda option \<Rightarrow> bool \<Rightarrow> VM \<Rightarrow> error + VM" where
  "pushFrame lam toplevel vm =
     (if fp vm < int (length (stack vm)) \<and> frame_of (stack vm) (fp vm) = None then Inl Panic
      else
        (let f = \<lparr>Next = fp vm, Lambda = lam, Toplevel = toplevel\<rparr>
         in Inr (vm\<lparr>fp := int (length (stack vm)), stack := stack vm @ [[VFrame f]]\<rparr>)))"

text \<open>\<^verbatim>\<open>func (vm *VM) popFrame()\<close>.\<close>

definition popFrame :: "VM \<Rightarrow> error + VM" where
  "popFrame vm =
     (case frame_of (stack vm) (fp vm) of
        None \<Rightarrow> Inl Panic
      | Some f \<Rightarrow> Inr (vm\<lparr>stack := take (nat (fp vm)) (stack vm), fp := Next f\<rparr>))"

text \<open>
  The first lines of the \<^verbatim>\<open>OpCall\<close> case:
  \<^verbatim>\<open>frame, ok := vm.stack[vm.fp][0].(*Frame)
  if !ok || frame.Lambda == nil { return nil, fmt.Errorf("invalid function: %v", vm.accu) }\<close>
\<close>

definition call_lambda :: "VM \<Rightarrow> error + lambda" where
  "call_lambda vm =
     (if 0 \<le> fp vm \<and> fp vm < int (length (stack vm))
      then (case stack vm ! nat (fp vm) of
              [] \<Rightarrow> Inl Panic
            | VFrame f # _ \<Rightarrow>
                (case Lambda f of
                   None \<Rightarrow> Inl (Errorf ''invalid function'')
                 | Some l \<Rightarrow> Inr l)
            | _ # _ \<Rightarrow> Inl (Errorf ''invalid function''))
      else Inl Panic)"

text \<open>
  The \<^verbatim>\<open>OpCall\<close> case. \<open>args\<close> is the scope on top of the stack. The accumulator takes
  the value the native function returns before the error is looked at.
\<close>

definition exec_call :: "natives \<Rightarrow> VM \<Rightarrow> status \<times> VM" where
  "exec_call N vm =
     (case call_lambda vm of
        Inl e \<Rightarrow> (Failed e, vm)
      | Inr l \<Rightarrow>
          (let args = last (stack vm) in
           if int (length args) < MinArgs l then (Failed (Errorf ''too few arguments''), vm)
           else if int (length args) > MaxArgs l then (Failed (Errorf ''too many arguments''), vm)
           else
             (case Native l of
                None \<Rightarrow> (Failed (Errorf ''call''), vm)
              | Some n \<Rightarrow>
                  (let vm1 = vm\<lparr>accu := fst (N n args)\<rparr> in
                   case snd (N n args) of
                     Some m \<Rightarrow> (Failed (NativeErr m), vm1)
                   | None \<Rightarrow>
                       (case popFrame vm1 of
                          Inl e \<Rightarrow> (Failed e, vm1)
                        | Inr vm2 \<Rightarrow> (Running, vm2))))))"

text \<open>
  The \<^verbatim>\<open>OpLocalSet\<close> case, \<^verbatim>\<open>vm.stack[vm.fp+1+instr.I][instr.J] = vm.accu\<close>: both
  index expressions panic out of range.
\<close>

definition exec_local_set :: "Instr \<Rightarrow> VM \<Rightarrow> status \<times> VM" where
  "exec_local_set instr vm =
     (let i = fp vm + 1 + I instr in
      if 0 \<le> i \<and> i < int (length (stack vm))
      then
        (let scope = stack vm ! nat i in
         if 0 \<le> J instr \<and> J instr < int (length scope)
         then (Running, vm\<lparr>stack := (stack vm)[nat i := scope[nat (J instr) := accu vm]]\<rparr>)
         else (Failed Panic, vm))
      else (Failed Panic, vm))"

text \<open>
  The \<^verbatim>\<open>switch instr.Op\<close> of \<^verbatim>\<open>Execute\<close>. The slice
  \<^verbatim>\<open>vm.compiled[instr.I:instr.J]\<close> of \<^verbatim>\<open>OpLambda\<close> is checked against the length of
  \<^verbatim>\<open>vm.compiled\<close>, taken as its capacity.
\<close>

definition exec :: "natives \<Rightarrow> Instr \<Rightarrow> VM \<Rightarrow> status \<times> VM" where
  "exec N instr vm =
     (case Op instr of
        OpConst \<Rightarrow> (Running, vm\<lparr>accu := V instr\<rparr>)
      | OpDefine \<Rightarrow>
          (case Sym instr of
             None \<Rightarrow> (Failed Panic, vm)
           | Some s \<Rightarrow> (Running, vm\<lparr>globals := (globals vm)(s := accu vm)\<rparr>))
      | OpLambda \<Rightarrow>
          if slice_ok (I instr) (J instr) (length (compiled vm))
          then (Running, vm\<lparr>accu := VLambda \<lparr>MinArgs = 1, MaxArgs = 1, Native = None,
                                                Code = Some (I instr, J instr)\<rparr>\<rparr>)
          else (Failed Panic, vm)
      | OpGlobal \<Rightarrow>
          (case Sym instr of
             None \<Rightarrow> (Failed Panic, vm)
           | Some s \<Rightarrow> (Running, vm\<lparr>accu := globals vm s\<rparr>))
      | OpLocalSet \<Rightarrow> exec_local_set instr vm
      | OpPushF \<Rightarrow>
          (case accu vm of
             VLambda l \<Rightarrow>
               (case pushFrame (Some l) (I instr \<noteq> 0) vm of
                  Inl e \<Rightarrow> (Failed e, vm)
                | Inr vm' \<Rightarrow> (Running, vm'))
           | _ \<Rightarrow> (Failed (Errorf ''invalid function''), vm))
      | OpPushS \<Rightarrow>
          (case pushScope (I instr) vm of
             Inl e \<Rightarrow> (Failed e, vm)
           | Inr vm' \<Rightarrow> (Running, vm'))
      | OpCall \<Rightarrow> exec_call N vm
      | OpHalt \<Rightarrow>
          (case popFrame vm of
             Inl e \<Rightarrow> (Failed e, vm)
           | Inr vm' \<Rightarrow> (Returned (accu vm'), vm'))
      | _ \<Rightarrow> (Failed (Errorf ''not implemented''), vm))"

text \<open>
  One turn of the loop of \<^verbatim>\<open>Execute\<close>: \<^verbatim>\<open>instr := code[vm.pc]\<close>, which panics out of
  range, \<^verbatim>\<open>vm.pc++\<close>, and the switch.
\<close>

definition step :: "natives \<Rightarrow> Instr list \<Rightarrow> VM \<Rightarrow> status \<times> VM" where
  "step N code vm =
     (if 0 \<le> pc vm \<and> pc vm < int (length code)
      then exec N (code ! nat (pc vm)) (vm\<lparr>pc := pc vm + 1\<rparr>)
      else (Failed Panic, vm))"

text \<open>
  The loop \<^verbatim>\<open>for { ... }\<close> of \<^verbatim>\<open>Execute\<close>, and \<^verbatim>\<open>Execute\<close> itself: the result and the
  machine as it is left. No instruction of this machine jumps, so the loop ends at the
  latest by running off the code.
\<close>

function Execute_loop :: "natives \<Rightarrow> Instr list \<Rightarrow> VM \<Rightarrow> (error + Value) \<times> VM" where
  "Execute_loop N code vm =
     (case step N code vm of
        (Running, vm') \<Rightarrow> Execute_loop N code vm'
      | (Returned v, vm') \<Rightarrow> (Inr v, vm')
      | (Failed e, vm') \<Rightarrow> (Inl e, vm'))"
  by pat_completeness auto

definition Execute :: "natives \<Rightarrow> Instr list \<Rightarrow> VM \<Rightarrow> (error + Value) \<times> VM" where
  "Execute N code vm =
     (case pushFrame None True vm of
        Inl e \<Rightarrow> (Inl e, vm)
      | Inr vm' \<Rightarrow> Execute_loop N code vm')"

text \<open>
  The states the machine goes through: a machine with an empty stack (as \<^verbatim>\<open>NewVM\<close>
  makes it, and as a run that halts leaves it), the entry of \<^verbatim>\<open>Execute\<close>
  (\<^verbatim>\<open>vm.pushFrame(nil, true)\<close>) from a state reached, and each turn of the loop.
\<close>

inductive reachable :: "natives \<Rightarrow> Instr list \<Rightarrow> VM \<Rightarrow> bool" for N code where
  fresh: "stack vm = [] \<Longrightarrow> fp vm = 0 \<Longrightarrow> reachable N code vm"
| enter: "reachable N code vm \<Longrightarrow> pushFrame None True vm = Inr vm' \<Longrightarrow> reachable N code vm'"
| turn: "reachable N code vm \<Longrightarrow> step N code vm = (s, vm') \<Longrightarrow> reachable N code vm'"

text \<open>
  The frame invariant of P5: \<open>fp\<close> is 0, or it indexes a scope of the stack that holds
  exactly one value, a frame.
\<close>

definition fp_ok :: "VM \<Rightarrow> bool" where
  "fp_ok vm = (fp vm = 0 \<or> (\<exists>f. frame_of (stack vm) (fp vm) = Some f))"

text \<open>
  The chain of frames below \<open>fp\<close>: the scope at \<open>fp\<close> holds one frame, whose \<open>Next\<close>
  is the index of the frame pushed before it, down to the frame at index 0.
\<close>

inductive frame_chain :: "Value list list \<Rightarrow> int \<Rightarrow> bool" for st where
  bottom: "frame_of st 0 = Some f \<Longrightarrow> Next f = 0 \<Longrightarrow> frame_chain st 0"
| link: "0 < i \<Longrightarrow> frame_of st i = Some f \<Longrightarrow> Next f < i \<Longrightarrow> frame_chain st (Next f) \<Longrightarrow>
         frame_chain st i"

text \<open>
  The invariant the proofs carry: \<open>fp\<close> heads a chain of frames, or it is 0 and the
  stack has no frame at index 0 (as on the empty stack).
\<close>

definition frames_ok :: "VM \<Rightarrow> bool" where
  "frames_ok vm =
     (frame_chain (stack vm) (fp vm) \<or> (fp vm = 0 \<and> frame_of (stack vm) 0 = None))"

text \<open>Code whose \<^verbatim>\<open>OpLocalSet\<close> instructions name a scope above the frame.\<close>

definition local_sets_above_frame :: "Instr list \<Rightarrow> bool" where
  "local_sets_above_frame code = (\<forall>instr \<in> set code. Op instr = OpLocalSet \<longrightarrow> 0 \<le> I instr)"

section \<open>The compiler (package scheme): bytecode emission\<close>

text \<open>
  The syntax tree of the interpreter and its \<^verbatim>\<open>Bytecode\<close> methods, from \<^verbatim>\<open>scheme.go\<close>. The
  tree types and the methods are in the source. The type \<^verbatim>\<open>Compiler\<close> with its methods
  \<^verbatim>\<open>addInstr\<close>, \<^verbatim>\<open>addPushS\<close>, \<^verbatim>\<open>addPopS\<close>, \<^verbatim>\<open>addCall\<close>, \<^verbatim>\<open>newLabel\<close>, \<^verbatim>\<open>addLabel\<close> and
  \<^verbatim>\<open>define\<close>, and the types \<^verbatim>\<open>Locator\<close>, \<^verbatim>\<open>Flags\<close>, \<^verbatim>\<open>Keyword\<close>, \<^verbatim>\<open>Args\<close>, \<^verbatim>\<open>Env\<close>,
  \<^verbatim>\<open>EnvFrame\<close> and \<^verbatim>\<open>EnvBinding\<close> are declared in files that are not among the sources;
  the methods of the tree call them and read their fields.
\<close>

text \<open>
  Modelled from the spec: \<^verbatim>\<open>Locator\<close>, the \<^emph>\<open>source location for diagnostics\<close> that an
  instruction carries. A location is a number, and \<open>None\<close> is the \<^verbatim>\<open>nil\<close> that the methods
  pass for an instruction without one.
\<close>

type_synonym Locator = "nat option"

text \<open>
  Modelled from the spec: \<^verbatim>\<open>Flags\<close> of a definition, as the integer that the conversion
  \<^verbatim>\<open>int(ast.Flags)\<close> gives, and \<^verbatim>\<open>Keyword\<close>, the kind of a let form (\<^verbatim>\<open>let\<close>, \<^verbatim>\<open>let*\<close>,
  \<^verbatim>\<open>letrec\<close>), which no \<^verbatim>\<open>Bytecode\<close> method reads.
\<close>

type_synonym Flags = int
type_synonym Keyword = nat

text \<open>
  Modelled from the spec: the argument list \<^verbatim>\<open>Args\<close> of a lambda form and its compile-time
  environment \<^verbatim>\<open>*Env\<close>. The methods hand them on to the table of lambdas and to
  \<^verbatim>\<open>define\<close> and never look inside, so they are types without structure.
\<close>

typedecl Args
typedecl Env

text \<open>
  Modelled from the spec: \<^emph>\<open>each EnvFrame has a type in {Stack, Env} and an Index\<close>, and a
  binding has the index of its slot. The methods read \<^verbatim>\<open>Frame.Type\<close>, \<^verbatim>\<open>Frame.Index\<close> and
  \<^verbatim>\<open>Index\<close> of an \<^verbatim>\<open>EnvBinding\<close>, and \<^verbatim>\<open>Index\<close> of an \<^verbatim>\<open>EnvFrame\<close>, and compare the type
  with the constant \<^verbatim>\<open>TypeStack\<close>. An index is a Go \<^verbatim>\<open>int\<close>, a signed integer of 64
  bits: the sums that the methods take of two of them wrap around, and the operand of
  an instruction is the integer that the sum is then (\<open>sint\<close>).
\<close>

datatype FrameType = TypeStack | TypeEnv

record EnvFrame =
  Type :: FrameType
  Index :: "64 word"

record EnvBinding =
  Frame :: EnvFrame
  Index :: "64 word"

text \<open>
  \<^verbatim>\<open>type AST interface\<close> with the fourteen types that implement it, each a constructor
  with the fields of its struct in the order of the source, and the three types of
  bindings and choices. For example
  \<^verbatim>\<open>type ASTLet struct { From Locator; Type Keyword; Captures bool; Tail bool;
  Bindings []*ASTLetBinding; Body []AST }\<close> and
  \<^verbatim>\<open>type ASTLetBinding struct { From Locator; Binding *EnvBinding; Init AST }\<close>.

  A pointer that a method tests against \<^verbatim>\<open>nil\<close> is an option: \<^verbatim>\<open>Binding\<close> of \<^verbatim>\<open>ASTSet\<close>
  and of \<^verbatim>\<open>ASTIdentifier\<close>, \<^verbatim>\<open>False\<close> of \<^verbatim>\<open>ASTIf\<close>, \<^verbatim>\<open>Cond\<close> and \<^verbatim>\<open>Func\<close> of
  \<^verbatim>\<open>ASTCondChoice\<close>, and the name of a lambda form, which is only handed on. A pointer
  or an interface that a method uses without a test is what it points to; a tree in
  which one of those is \<^verbatim>\<open>nil\<close> is not a tree of this type (on it the Go method stops
  with a nil dereference). The identifier \<^verbatim>\<open>Name *Identifier\<close> of \<^verbatim>\<open>ASTDefine\<close> is
  read only as \<^verbatim>\<open>ast.Name.Name\<close> and is that string.
\<close>

datatype AST =
    ASTSequence Locator "AST list"
  | ASTDefine Locator string Flags AST
  | ASTSet Locator string "EnvBinding option" AST
  | ASTLet Locator Keyword bool bool "ASTLetBinding list" "AST list"
  | ASTIf Locator AST AST "AST option"
  | ASTApply Locator AST AST bool
  | ASTCall Locator AST EnvFrame "AST list" "Locator list" bool
  | ASTLambda Locator "string option" Args "AST list" Env bool bool Flags
  | ASTConstant Locator Value
  | ASTIdentifier Locator string "EnvBinding option"
  | ASTCond Locator "ASTCondChoice list" bool bool
  | ASTCase Locator "ASTCaseChoice list" EnvFrame EnvFrame AST bool bool
  | ASTAnd Locator "AST list"
  | ASTOr Locator "AST list"
and ASTLetBinding = ASTLetBinding Locator EnvBinding AST
and ASTCondChoice = ASTCondChoice Locator "AST option" "AST option" EnvFrame EnvFrame "AST list"
and ASTCaseChoice = ASTCaseChoice Locator "Value list" "Locator list" "AST list"

text \<open>
  \<^verbatim>\<open>&lambdaCompilation{Name: ast.Name, Args: ast.Args, Body: ast.Body, Env: ast.Env,
  Captures: ast.Captures}\<close>, an entry of the table of lambdas.
\<close>

datatype lambdaCompilation = lambdaCompilation "string option" Args "AST list" Env bool

text \<open>
  Modelled from the spec: the state of the \<^verbatim>\<open>Compiler\<close> that the methods reach. \<open>scm\<close> is
  the symbol table of the interpreter \<^verbatim>\<open>c.scm\<close>, \<open>instrs\<close> the code emitted so far
  (\<^emph>\<open>Code = contiguous sequence of Instr\<close>), \<open>nextLabel\<close> the number of the next label
  (\<^emph>\<open>labels are generated monotonically by the compiler\<close>), \<open>lambdas\<close> the table of lambdas
  \<^verbatim>\<open>c.lambdas\<close>.
\<close>

record Compiler =
  scm :: symbols
  instrs :: "Instr list"
  nextLabel :: int
  lambdas :: "lambdaCompilation list"



definition add :: "Instr \<Rightarrow> Compiler \<Rightarrow> Compiler" where
  "add instr c = c\<lparr>instrs := instrs c @ [instr]\<rparr>"





















section \<open>Notions the statements use\<close>



text \<open>The integer that \<open>Int64\<close> reads from the \<open>i\<close>-th argument, when there is one.\<close>

definition int_arg :: "(Value \<Rightarrow> error + 64 word) \<Rightarrow> Value list \<Rightarrow> nat \<Rightarrow> int option" where
  "int_arg Int64 args i =
     (case arg args i of
        Inr a \<Rightarrow> (case Int64 a of Inr w \<Rightarrow> Some (sint w) | Inl _ \<Rightarrow> None)
      | Inl _ \<Rightarrow> None)"

text \<open>The number of arguments of a call: the length of the scope on top of the stack.\<close>

definition argc :: "VM \<Rightarrow> int" where
  "argc vm = int (length (last (stack vm)))"











section \<open>Example machines and instruction sequences\<close>

text \<open>A table of native functions: each returns its first argument and no error.\<close>

definition first_arg :: natives where
  "first_arg n args = (case args of [] \<Rightarrow> VNil | a # _ \<Rightarrow> a, None)"

text \<open>The machine as \<^verbatim>\<open>NewVM\<close> leaves it, before any builtin is defined.\<close>

definition empty_vm :: VM where
  "empty_vm = \<lparr>compiled = [], pc = 0, fp = 0, accu = VNil, stack = [], globals = (\<lambda>name. VNil)\<rparr>"

definition mk_instr :: "Operand \<Rightarrow> Value \<Rightarrow> int \<Rightarrow> int \<Rightarrow> string option \<Rightarrow> Instr" where
  "mk_instr opc v i j s = \<lparr>Op = opc, V = v, I = i, J = j, Sym = s, From = None\<rparr>"

definition native_lambda :: "int \<Rightarrow> int \<Rightarrow> lambda" where
  "native_lambda lo hi = \<lparr>MinArgs = lo, MaxArgs = hi, Native = Some 0, Code = None\<rparr>"

text \<open>
  A machine inside a call: the frame of the program, the frame of the call of \<open>l\<close>
  and the scope of its arguments.
\<close>

definition call_vm :: "lambda \<Rightarrow> Value list \<Rightarrow> VM" where
  "call_vm l args =
     empty_vm\<lparr>stack := [[VFrame \<lparr>Next = 0, Lambda = None, Toplevel = True\<rparr>],
                        [VFrame \<lparr>Next = 0, Lambda = Some l, Toplevel = False\<rparr>], args],
              fp := 1\<rparr>"

text \<open>
  Two instruction sequences. Both load a native lambda and push its frame. The first
  then stores into the scope \<open>-1\<close> above the frame, which is the scope of the frame
  itself; the second pushes a scope of one argument, stores into it and calls.
\<close>

definition bad_code :: "Instr list" where
  "bad_code =
     [mk_instr OpConst (VLambda (native_lambda 0 0)) 0 0 None,
      mk_instr OpPushF VNil 0 0 None,
      mk_instr OpConst (VBoolean True) 0 0 None,
      mk_instr OpLocalSet VNil (- 1) 0 None]"

definition good_code :: "Instr list" where
  "good_code =
     [mk_instr OpConst (VLambda (native_lambda 1 1)) 0 0 None,
      mk_instr OpPushF VNil 0 0 None,
      mk_instr OpPushS VNil 1 0 None,
      mk_instr OpConst (VBoolean True) 0 0 None,
      mk_instr OpLocalSet VNil 0 0 None,
      mk_instr OpCall VNil 1 0 None,
      mk_instr OpHalt VNil 0 0 None]"







section \<open>Termination of the loop of Execute\<close>

lemma popFrame_pc: "popFrame vm = Inr vm' \<Longrightarrow> pc vm' = pc vm"
  by (auto simp: popFrame_def split: option.splits)

lemma pushFrame_pc: "pushFrame l t vm = Inr vm' \<Longrightarrow> pc vm' = pc vm"
  by (auto simp: pushFrame_def Let_def split: if_splits)

lemma pushScope_pc: "pushScope n vm = Inr vm' \<Longrightarrow> pc vm' = pc vm"
  by (auto simp: pushScope_def split: if_splits)

lemma exec_call_pc: "exec_call N vm = (s, vm') \<Longrightarrow> pc vm' = pc vm"
  by (auto simp: exec_call_def Let_def split: sum.splits option.splits if_splits dest: popFrame_pc)

lemma exec_local_set_pc: "exec_local_set instr vm = (s, vm') \<Longrightarrow> pc vm' = pc vm"
  by (auto simp: exec_local_set_def Let_def split: if_splits)

lemma exec_pc: "exec N instr vm = (s, vm') \<Longrightarrow> pc vm' = pc vm"
  by (auto simp: exec_def
      split: if_splits Operand.splits option.splits sum.splits Value.splits
      dest: popFrame_pc pushFrame_pc pushScope_pc exec_call_pc exec_local_set_pc)

lemma step_Running_pc:
  "step N code vm = (Running, vm') \<Longrightarrow>
     0 \<le> pc vm \<and> pc vm < int (length code) \<and> pc vm' = pc vm + 1"
  by (auto simp: step_def split: if_splits dest: exec_pc)

termination Execute_loop
proof (relation "measure (\<lambda>(N, code, vm). nat (int (length code) - pc vm))")
  fix N code vm x y
  assume "(x, y) = step N code vm" "x = Running"
  then have "step N code vm = (Running, y)" by simp
  from step_Running_pc [OF this]
  show "((N, code, y), (N, code, vm)) \<in> measure (\<lambda>(N, code, vm). nat (int (length code) - pc vm))"
    by simp
qed simp

declare Execute_loop.simps [simp del]

section \<open>Termination of the loops of Unify\<close>

lemma height_Super: "e \<noteq> EnumAny \<Longrightarrow> height (Super e) < height e"
  by (cases e) simp_all

termination Unify_inner
  by (relation "measure (\<lambda>(eIter, oIter). height oIter)") (simp_all add: height_Super)

declare Unify_inner.simps [simp del]

lemma Unify_inner_Any: "Unify_inner EnumAny oth"
proof (induction oth rule: measure_induct_rule [where f = height])
  case (less oth)
  show ?case
  proof (cases "oth = EnumAny")
    case True
    then show ?thesis by (subst Unify_inner.simps) simp
  next
    case False
    then have "Unify_inner EnumAny (Super oth)"
      using less height_Super by blast
    then show ?thesis by (subst Unify_inner.simps) simp
  qed
qed

termination Unify
proof (relation "measure (\<lambda>(e, oth). height e)")
  fix e oth
  assume "\<not> Unify_inner e oth"
  then have "e \<noteq> EnumAny" using Unify_inner_Any by auto
  then show "((Super e, oth), (e, oth)) \<in> measure (\<lambda>(e, oth). height e)"
    by (simp add: height_Super)
qed simp

declare Unify.simps [simp del]

termination ancestors
  by (relation "measure height") (simp_all add: height_Super)

declare ancestors.simps [simp del]

section \<open>Unify is the least common ancestor\<close>

lemmas Unify_eval = Unify.simps Unify_inner.simps ancestors.simps is_ancestor_def

text \<open>
  C8. For every pair of type enums \<open>a\<close> and \<open>b\<close>, \<open>Unify a b\<close> is the least common
  ancestor of \<open>a\<close> and \<open>b\<close> in the supertype tree: it is an ancestor (or self) of both,
  and every common ancestor of \<open>a\<close> and \<open>b\<close> is an ancestor of it. The tree is rooted at
  \<open>any\<close>, \<open>number\<close> is the parent of \<open>exact-integer\<close> and \<open>exact-float\<close>,
  \<open>inexact-integer\<close> refines \<open>exact-integer\<close> and \<open>inexact-float\<close> refines
  \<open>exact-float\<close>. Consequently \<open>Unify\<close> is commutative, \<open>Unify a a = a\<close> and
  \<open>Unify any b = any\<close>.
\<close>

theorem Unify_least_common_ancestor:
  "is_ancestor (Unify a b) a \<and> is_ancestor (Unify a b) b \<and>
   (\<forall>c. is_ancestor c a \<and> is_ancestor c b \<longrightarrow> is_ancestor c (Unify a b)) \<and>
   is_ancestor EnumAny a \<and>
   Super EnumExactInteger = EnumNumber \<and> Super EnumExactFloat = EnumNumber \<and>
   Super EnumInexactInteger = EnumExactInteger \<and> Super EnumInexactFloat = EnumExactFloat \<and>
   Unify a b = Unify b a \<and> Unify a a = a \<and> Unify EnumAny b = EnumAny"
proof -
  have anc: "is_ancestor (Unify a b) a \<and> is_ancestor (Unify a b) b"
    by (cases a; cases b; simp add: Unify_eval)
  have least: "\<forall>c. is_ancestor c a \<and> is_ancestor c b \<longrightarrow> is_ancestor c (Unify a b)"
    by (cases a; cases b; auto simp: Unify_eval)
  have root: "is_ancestor EnumAny a"
    by (cases a; simp add: Unify_eval)
  have comm: "Unify a b = Unify b a"
    by (cases a; cases b; simp add: Unify_eval)
  have idem: "Unify a a = a"
    by (subst Unify.simps, subst Unify_inner.simps) simp
  have top: "Unify EnumAny b = EnumAny"
    by (subst Unify.simps) (simp add: Unify_inner_Any)
  from anc least root comm idem top show ?thesis by simp
qed

theorem Unify_least_common_ancestor_witness:
  "is_ancestor EnumNumber EnumInexactInteger \<and> is_ancestor EnumNumber EnumExactFloat \<and>
   is_ancestor EnumNumber (Unify EnumInexactInteger EnumExactFloat) \<and>
   Unify EnumInexactInteger EnumExactFloat = EnumNumber"
proof -
  have h: "is_ancestor EnumNumber EnumInexactInteger \<and> is_ancestor EnumNumber EnumExactFloat"
    by (simp add: Unify_eval)
  have v: "Unify EnumInexactInteger EnumExactFloat = EnumNumber"
    by (simp add: Unify_eval)
  from Unify_least_common_ancestor [of EnumInexactInteger EnumExactFloat] h
  have "is_ancestor EnumNumber (Unify EnumInexactInteger EnumExactFloat)" by blast
  with h v show ?thesis by simp
qed

section \<open>The builtin + and equality of numbers\<close>







section \<open>The builtin substring\<close>

text \<open>
  C7 fails on the code at a string with a character of more than one byte. The three
  characters of the string below take six bytes, so the indices 0 and 5 pass the
  validation, which compares with the length in bytes; the slice expression is then
  out of the range of the three code points. It panics when the backing array has
  no spare capacity, and reads two code points of the spare capacity otherwise.
\<close>

theorem substring_multibyte:
  "substring Int64_exact [] [VString [0x3B1, 0x3B2, 0x3B3], VNumber \<lparr>Base = 0, Value = I64 0\<rparr>,
      VNumber \<lparr>Base = 0, Value = I64 5\<rparr>] = Inl Panic \<and>
   substring Int64_exact [0, 0] [VString [0x3B1, 0x3B2, 0x3B3], VNumber \<lparr>Base = 0, Value = I64 0\<rparr>,
      VNumber \<lparr>Base = 0, Value = I64 5\<rparr>] = Inr (VString [0x3B1, 0x3B2, 0x3B3, 0, 0]) \<and>
   byte_len [0x3B1, 0x3B2, 0x3B3] = 6 \<and> length [0x3B1, 0x3B2, 0x3B3 :: nat] = 3"
  by (simp add: substring_def arg_def Int64_exact_def byte_len_def RuneLen_def slice_ok_def slice_def
      word_sless_alt)

lemma substring_hello:
  "substring Int64_exact spare [VString [104, 101, 108, 108, 111], VNumber \<lparr>Base = 0, Value = I64 1\<rparr>,
      VNumber \<lparr>Base = 0, Value = I64 4\<rparr>] = Inr (VString [101, 108, 108])"
  by (simp add: substring_def arg_def Int64_exact_def byte_len_def RuneLen_def slice_ok_def slice_def
      word_sless_alt)

lemma substring_guarded:
  assumes "arg args 0 = Inr (VString strv)"
    and "arg args 1 = Inr a1" "Int64 a1 = Inr start"
    and "arg args 2 = Inr a2" "Int64 a2 = Inr stop"
  shows "(substring Int64 spare args = Inl (Errorf ''invalid indices'') \<longleftrightarrow>
           \<not> (0 \<le> sint start \<and> sint start \<le> sint stop \<and> sint stop \<le> int (byte_len strv))) \<and>
         (0 \<le> sint start \<and> sint start \<le> sint stop \<and> sint stop \<le> int (length strv) \<longrightarrow>
            substring Int64 spare args =
              Inr (VString (take (nat (sint stop) - nat (sint start)) (drop (nat (sint start)) strv)))) \<and>
         length strv \<le> byte_len strv"
proof -
  have le: "length xs \<le> byte_len xs" for xs
    by (induction xs) (simp_all add: byte_len_def RuneLen_def)
  show ?thesis
    using assms le [of strv]
    by (auto simp: substring_def slice_ok_def slice_def word_sless_alt Let_def nat_diff_distrib)
qed

section \<open>Bytevectors: eq?, equal? and bytevector-copy!\<close>

text \<open>
  What \<open>Eq\<close> and \<open>Equal\<close> compute on bytevectors. \<open>Eq\<close> is true exactly when the other
  value is a bytevector and both have length 0; \<open>Equal\<close> is reflexive; and whenever
  \<open>Eq\<close> is true of two bytevectors, \<open>Equal\<close> is true of them.
\<close>

lemma Equal_loop_refl:
  "Equal_loop xs xs idx"
proof (induction "length xs - idx" arbitrary: idx)
  case 0
  then show ?case by (simp add: Equal_loop.simps)
next
  case (Suc n)
  from Suc.prems Suc.hyps(2) Suc.hyps(1) [of "idx + 1"] show ?case
    by (subst Equal_loop.simps) simp
qed

lemma ByteVector_Equal_refl:
  "ByteVector_Equal h v (VByteVector v)"
  by (simp add: ByteVector_Equal_def Equal_loop_refl)

lemma ByteVector_Eq_empty_only:
  "(ByteVector_Eq h v oth \<longleftrightarrow> (\<exists>ov. oth = VByteVector ov \<and> h v = [] \<and> h ov = [])) \<and>
   (h v = [] \<longrightarrow> ByteVector_Eq h v (VByteVector v)) \<and>
   (h v \<noteq> [] \<longrightarrow> \<not> ByteVector_Eq h v (VByteVector v)) \<and>
   (ByteVector_Eq h v oth \<longrightarrow> ByteVector_Equal h v oth)"
  by (auto simp: ByteVector_Eq_def ByteVector_Equal_def Equal_loop.simps split: Value.splits)

text \<open>
  C9 fails on the code: \<open>Eq\<close> is not reflexive. The method is documented as
  \<^verbatim>\<open>Eq tests if the argument value is eq? to this value\<close>, yet on the bytevector of
  the one byte 1, held at address 0 of the store, \<open>Eq\<close> applied to that bytevector
  and itself is false. \<open>Equal\<close> of the same two arguments is true, and so is \<open>Eq\<close> of
  two distinct bytevectors (addresses 1 and 2) that are both empty: the test
  \<^verbatim>\<open>len(v) == 0 && len(ov) == 0\<close> looks at the lengths only, never at the identity of
  the backing array.
\<close>

theorem ByteVector_Eq_not_reflexive:
  "\<not> ByteVector_Eq (\<lambda>a. if a = 0 then [1] else []) 0 (VByteVector 0) \<and>
   ByteVector_Equal (\<lambda>a. if a = 0 then [1] else []) 0 (VByteVector 0) \<and>
   ByteVector_Eq (\<lambda>a. if a = 0 then [1] else []) 1 (VByteVector 2)"
  by (simp add: ByteVector_Eq_def ByteVector_Equal_def Equal_loop.simps)

lemma sint_add_64: 
  fixes a b :: "64 word"
  shows "sint (a + b) = (sint a + sint b + 2 ^ 63) mod 2 ^ 64 - 2 ^ 63"
  by (simp add: sint_word_ariths signed_take_bit_eq_take_bit_shift take_bit_eq_mod)

lemma sint_add_nowrap:
  fixes a b :: "64 word"
  assumes "0 \<le> sint a" "0 \<le> sint b" "0 \<le> sint (a + b)"
  shows "sint (a + b) = sint a + sint b"
proof -
  have la: "sint a < 2 ^ 63" using sint_lt [of a] by simp
  have lb: "sint b < 2 ^ 63" using sint_lt [of b] by simp
  show ?thesis
  proof (cases "sint a + sint b < 2 ^ 63")
    case True
    then have "(sint a + sint b + 2 ^ 63) mod 2 ^ 64 = sint a + sint b + 2 ^ 63"
      using assms by (intro mod_pos_pos_trivial) simp_all
    then show ?thesis by (simp add: sint_add_64)
  next
    case False
    have "(sint a + sint b - 2 ^ 63) mod 2 ^ 64 = sint a + sint b - 2 ^ 63"
      using False la lb by (intro mod_pos_pos_trivial) simp_all
    moreover have "(sint a + sint b + 2 ^ 63) mod 2 ^ 64 = (sint a + sint b - 2 ^ 63) mod 2 ^ 64"
      using minus_mod_self2 [of "sint a + sint b + 2 ^ 63" "2 ^ 64"] by simp
    ultimately have "sint (a + b) = sint a + sint b - 2 ^ 64"
      by (simp add: sint_add_64)
    then show ?thesis using assms la lb by simp
  qed
qed


lemma bytevector_copy_error:
  "bytevector_copy Int64 h args = (Inl e, h') \<Longrightarrow> h' = h"
  unfolding bytevector_copy_def
  by (simp split: sum.splits Value.splits if_splits add: Let_def)

lemma bytevector_copy_success:
  assumes "bytevector_copy Int64 h args = (Inr v, h')"
  shows "\<exists>source target a1 a3 a4 sourceStart targetStart k.
     arg args 0 = Inr (VByteVector source) \<and> arg args 2 = Inr (VByteVector target) \<and>
     arg args 1 = Inr a1 \<and> Int64 a1 = Inr sourceStart \<and>
     arg args 3 = Inr a3 \<and> Int64 a3 = Inr targetStart \<and>
     arg args 4 = Inr a4 \<and> Int64 a4 = Inr k \<and>
     0 \<le> sint sourceStart \<and> 0 \<le> sint targetStart \<and> 0 \<le> sint k \<and>
     slice_ok (sint targetStart) (sint (targetStart + k)) (length (h target)) \<and>
     slice_ok (sint sourceStart) (sint (sourceStart + k)) (length (h source)) \<and>
     v = VNil \<and>
     h' = h(target := take (nat (sint targetStart)) (h target) @
            take (min (length (slice (h target) (sint targetStart) (sint (targetStart + k))))
                      (length (slice (h source) (sint sourceStart) (sint (sourceStart + k)))))
              (slice (h source) (sint sourceStart) (sint (sourceStart + k))) @
            drop (nat (sint targetStart) +
                  min (length (slice (h target) (sint targetStart) (sint (targetStart + k))))
                      (length (slice (h source) (sint sourceStart) (sint (sourceStart + k)))))
              (h target))"
  using assms unfolding bytevector_copy_def
  by (simp split: sum.splits Value.splits if_splits add: Let_def word_sless_alt)

text \<open>
  C10. \<open>bytevector-copy!\<close> is atomic and frame-bounded. Whenever it ends in an error
  (a failed check, or a panic of a slice expression after a wrapped sum) the store is
  the one it started from. Whenever it succeeds, the arguments denote a source, a
  target and natural numbers \<open>ss\<close>, \<open>ts\<close>, \<open>k\<close> with \<open>ss + k\<close> within the source
  and \<open>ts + k\<close> within the target; the target keeps its length, its \<open>k\<close> bytes from
  \<open>ts\<close> on are the bytes the source had from \<open>ss\<close> on before the call, every
  other byte of the target is unchanged, and every bytevector other than the target
  (the source, when it is not the target) is unchanged.
\<close>

theorem bytevector_copy_atomic:
  assumes "bytevector_copy Int64 h args = (r, h')"
  shows "(\<forall>e. r = Inl e \<longrightarrow> h' = h) \<and>
   (\<forall>v. r = Inr v \<longrightarrow>
      (\<exists>source target ss ts k.
         arg args 0 = Inr (VByteVector source) \<and> arg args 2 = Inr (VByteVector target) \<and>
         int_arg Int64 args 1 = Some (int ss) \<and> int_arg Int64 args 3 = Some (int ts) \<and>
         int_arg Int64 args 4 = Some (int k) \<and>
         ss + k \<le> length (h source) \<and> ts + k \<le> length (h target) \<and>
         length (h' target) = length (h target) \<and>
         (\<forall>i<k. h' target ! (ts + i) = h source ! (ss + i)) \<and>
         (\<forall>j<length (h target). j < ts \<or> ts + k \<le> j \<longrightarrow> h' target ! j = h target ! j) \<and>
         (\<forall>a. a \<noteq> target \<longrightarrow> h' a = h a)))"
proof (intro conjI allI impI)
  fix e assume "r = Inl e"
  with assms show "h' = h" by (simp add: bytevector_copy_error)
next
  fix v assume "r = Inr v"
  with assms have "bytevector_copy Int64 h args = (Inr v, h')" by simp
  from bytevector_copy_success [OF this]
  obtain source target a1 a3 a4 sourceStart targetStart kw where
    a0: "arg args 0 = Inr (VByteVector source)" and a2: "arg args 2 = Inr (VByteVector target)" and
    a1: "arg args 1 = Inr a1" "Int64 a1 = Inr sourceStart" and
    a3: "arg args 3 = Inr a3" "Int64 a3 = Inr targetStart" and
    a4: "arg args 4 = Inr a4" "Int64 a4 = Inr kw" and
    nn: "0 \<le> sint sourceStart" "0 \<le> sint targetStart" "0 \<le> sint kw" and
    st: "slice_ok (sint targetStart) (sint (targetStart + kw)) (length (h target))" and
    ss: "slice_ok (sint sourceStart) (sint (sourceStart + kw)) (length (h source))" and
    h': "h' = h(target := take (nat (sint targetStart)) (h target) @
            take (min (length (slice (h target) (sint targetStart) (sint (targetStart + kw))))
                      (length (slice (h source) (sint sourceStart) (sint (sourceStart + kw)))))
              (slice (h source) (sint sourceStart) (sint (sourceStart + kw))) @
            drop (nat (sint targetStart) +
                  min (length (slice (h target) (sint targetStart) (sint (targetStart + kw))))
                      (length (slice (h source) (sint sourceStart) (sint (sourceStart + kw)))))
              (h target))"
    by blast
  define ss' where "ss' = nat (sint sourceStart)"
  define ts' where "ts' = nat (sint targetStart)"
  define k' where "k' = nat (sint kw)"
  have sum_s: "sint (sourceStart + kw) = sint sourceStart + sint kw"
    using nn ss by (intro sint_add_nowrap) (simp_all add: slice_ok_def)
  have sum_t: "sint (targetStart + kw) = sint targetStart + sint kw"
    using nn st by (intro sint_add_nowrap) (simp_all add: slice_ok_def)
  have bs: "ss' + k' \<le> length (h source)"
    using ss nn sum_s by (simp add: slice_ok_def ss'_def k'_def)
  have bt: "ts' + k' \<le> length (h target)"
    using st nn sum_t by (simp add: slice_ok_def ts'_def k'_def)
  have src: "slice (h source) (sint sourceStart) (sint (sourceStart + kw)) = take k' (drop ss' (h source))"
    by (simp add: slice_def sum_s ss'_def k'_def)
  have lsrc: "length (slice (h source) (sint sourceStart) (sint (sourceStart + kw))) = k'"
    using bs by (simp add: src)
  have ldst: "length (slice (h target) (sint targetStart) (sint (targetStart + kw))) = k'"
    using bt by (simp add: slice_def sum_t ts'_def k'_def)
  have new: "h' target = take ts' (h target) @ take k' (drop ss' (h source)) @ drop (ts' + k') (h target)"
    using bs by (auto simp: h' ldst src ts'_def min_def)
  have other: "\<forall>a. a \<noteq> target \<longrightarrow> h' a = h a"
    by (simp add: h')
  have len: "length (h' target) = length (h target)"
    using bs bt by (simp add: new)
  have copied: "\<forall>i<k'. h' target ! (ts' + i) = h source ! (ss' + i)"
    using bs bt by (auto simp: new nth_append)
  have kept: "\<forall>j<length (h target). j < ts' \<or> ts' + k' \<le> j \<longrightarrow> h' target ! j = h target ! j"
    using bs bt by (auto simp: new nth_append)
  have i1: "int_arg Int64 args 1 = Some (int ss')"
    using a1 nn by (simp add: int_arg_def ss'_def)
  have i3: "int_arg Int64 args 3 = Some (int ts')"
    using a3 nn by (simp add: int_arg_def ts'_def)
  have i4: "int_arg Int64 args 4 = Some (int k')"
    using a4 nn by (simp add: int_arg_def k'_def)
  from a0 a2 i1 i3 i4 bs bt len copied kept other
  show "\<exists>source target ss ts k.
         arg args 0 = Inr (VByteVector source) \<and> arg args 2 = Inr (VByteVector target) \<and>
         int_arg Int64 args 1 = Some (int ss) \<and> int_arg Int64 args 3 = Some (int ts) \<and>
         int_arg Int64 args 4 = Some (int k) \<and>
         ss + k \<le> length (h source) \<and> ts + k \<le> length (h target) \<and>
         length (h' target) = length (h target) \<and>
         (\<forall>i<k. h' target ! (ts + i) = h source ! (ss + i)) \<and>
         (\<forall>j<length (h target). j < ts \<or> ts + k \<le> j \<longrightarrow> h' target ! j = h target ! j) \<and>
         (\<forall>a. a \<noteq> target \<longrightarrow> h' a = h a)"
    by blast
qed

theorem bytevector_copy_atomic_witness:
  "bytevector_copy Int64_exact (\<lambda>a. if a = 0 then [1, 2, 3, 4] else [9, 9, 9, 9, 9])
     [VByteVector 0, VNumber \<lparr>Base = 0, Value = I64 1\<rparr>, VByteVector 1,
      VNumber \<lparr>Base = 0, Value = I64 2\<rparr>, VNumber \<lparr>Base = 0, Value = I64 2\<rparr>] =
     (Inr VNil, (\<lambda>a. if a = 0 then [1, 2, 3, 4] else [9, 9, 9, 9, 9])(1 := [9, 9, 2, 3, 9])) \<and>
   snd (bytevector_copy Int64_exact (\<lambda>a. if a = 0 then [1, 2, 3, 4] else [9, 9, 9, 9, 9])
     [VByteVector 0, VNumber \<lparr>Base = 0, Value = I64 1\<rparr>, VByteVector 1,
      VNumber \<lparr>Base = 0, Value = I64 2\<rparr>, VNumber \<lparr>Base = 0, Value = I64 9\<rparr>]) =
     (\<lambda>a. if a = 0 then [1, 2, 3, 4] else [9, 9, 9, 9, 9])"
proof -
  have ok: "bytevector_copy Int64_exact (\<lambda>a. if a = 0 then [1, 2, 3, 4] else [9, 9, 9, 9, 9])
     [VByteVector 0, VNumber \<lparr>Base = 0, Value = I64 1\<rparr>, VByteVector 1,
      VNumber \<lparr>Base = 0, Value = I64 2\<rparr>, VNumber \<lparr>Base = 0, Value = I64 2\<rparr>] =
     (Inr VNil, (\<lambda>a. if a = 0 then [1, 2, 3, 4] else [9, 9, 9, 9, 9])(1 := [9, 9, 2, 3, 9]))"
    by (simp add: bytevector_copy_def arg_def Int64_exact_def slice_ok_def slice_def
        word_sless_alt)
  have ko: "bytevector_copy Int64_exact (\<lambda>a. if a = 0 then [1, 2, 3, 4] else [9, 9, 9, 9, 9])
     [VByteVector 0, VNumber \<lparr>Base = 0, Value = I64 1\<rparr>, VByteVector 1,
      VNumber \<lparr>Base = 0, Value = I64 2\<rparr>, VNumber \<lparr>Base = 0, Value = I64 9\<rparr>] =
     (Inl (Errorf ''invalid source range''),
      snd (bytevector_copy Int64_exact (\<lambda>a. if a = 0 then [1, 2, 3, 4] else [9, 9, 9, 9, 9])
        [VByteVector 0, VNumber \<lparr>Base = 0, Value = I64 1\<rparr>, VByteVector 1,
         VNumber \<lparr>Base = 0, Value = I64 2\<rparr>, VNumber \<lparr>Base = 0, Value = I64 9\<rparr>]))"
    by (simp add: bytevector_copy_def arg_def Int64_exact_def slice_ok_def slice_def
        word_sless_alt)
  from bytevector_copy_atomic [OF ko] bytevector_copy_atomic [OF ok] ok show ?thesis by simp
qed

section \<open>Global bindings of the interpreter\<close>

text \<open>
  C5. \<open>SetGlobal\<close> returns an error if and only if the interned symbol of the name
  carries the \<open>Const\<close> flag, which is the case exactly when the name was interned
  before the call with that flag. On success the symbol has every bit of \<open>Defined\<close>
  set and the given value as its global value, and no other symbol has changed. On
  error the symbol table, and with it the symbol's flags and global value, is
  unchanged.
\<close>

theorem SetGlobal_const_guard:
  assumes "SetGlobal FlagDefined FlagConst syms name v = (err, syms')"
  shows "(err \<noteq> None \<longleftrightarrow> Flags (fst (Intern syms name)) AND FlagConst \<noteq> 0) \<and>
   (err \<noteq> None \<longleftrightarrow> (\<exists>ident. syms name = Some ident \<and> Flags ident AND FlagConst \<noteq> 0)) \<and>
   (err = None \<longrightarrow>
      (\<exists>ident. syms' name = Some ident \<and> Flags ident AND FlagDefined = FlagDefined \<and>
         Global ident = v) \<and>
      (\<forall>m. m \<noteq> name \<longrightarrow> syms' m = syms m)) \<and>
   (err \<noteq> None \<longrightarrow> syms' = syms)"
  using assms
  by (auto simp: SetGlobal_def Intern_def Let_def split: option.splits if_splits)

theorem SetGlobal_const_guard_witness:
  "SetGlobal 1 2 Map.empty ''x'' (VBoolean True) =
     (None, [''x'' \<mapsto> \<lparr>Name = ''x'', Global = VBoolean True, Flags = 1\<rparr>]) \<and>
   SetGlobal 1 2 [''pi'' \<mapsto> \<lparr>Name = ''pi'', Global = VBoolean True, Flags = 3\<rparr>] ''pi'' VNil =
     (Some (Errorf ''can't reset final symbol''),
      [''pi'' \<mapsto> \<lparr>Name = ''pi'', Global = VBoolean True, Flags = 3\<rparr>]) \<and>
   Flags (fst (Intern [''pi'' \<mapsto> \<lparr>Name = ''pi'', Global = VBoolean True, Flags = 3\<rparr>] ''pi'')) AND 2 \<noteq> 0"
proof -
  have ok: "SetGlobal 1 2 Map.empty ''x'' (VBoolean True) =
     (None, [''x'' \<mapsto> \<lparr>Name = ''x'', Global = VBoolean True, Flags = 1\<rparr>])"
    by (simp add: SetGlobal_def Intern_def Let_def)
  have ko: "SetGlobal 1 2 [''pi'' \<mapsto> \<lparr>Name = ''pi'', Global = VBoolean True, Flags = 3\<rparr>] ''pi'' VNil =
     (Some (Errorf ''can't reset final symbol''),
      [''pi'' \<mapsto> \<lparr>Name = ''pi'', Global = VBoolean True, Flags = 3\<rparr>])"
    by (simp add: SetGlobal_def Intern_def Let_def)
  from SetGlobal_const_guard [OF ok] SetGlobal_const_guard [OF ko] ok ko
  show ?thesis by simp
qed

section \<open>The virtual machine: calls of native lambdas\<close>

lemmas vm_examples = first_arg_def empty_vm_def mk_instr_def native_lambda_def call_vm_def

lemmas step_eval = step_def exec_def exec_local_set_def pushFrame_def popFrame_def pushScope_def
  frame_of_def Let_def

lemma popFrame_Inl: "popFrame vm = Inl e \<Longrightarrow> e = Panic"
  by (auto simp: popFrame_def split: option.splits)

lemma popFrame_accu: "popFrame vm = Inr vm' \<Longrightarrow> accu vm' = accu vm"
  by (auto simp: popFrame_def split: option.splits)

text \<open>
  C1, as stated, fails on the code for a lambda declared with \<open>MinArgs > MaxArgs\<close>. The
  call below has 2 arguments and the lambda has \<open>MinArgs = 3\<close> and \<open>MaxArgs = 1\<close>: the
  number of arguments exceeds \<open>MaxArgs\<close>, and the error is "too few arguments", since
  that test comes first.
\<close>

theorem exec_call_too_few_despite_max:
  "call_lambda (call_vm (native_lambda 3 1) [VNil, VNil]) = Inr (native_lambda 3 1) \<and>
   Native (native_lambda 3 1) = Some 0 \<and>
   MaxArgs (native_lambda 3 1) < argc (call_vm (native_lambda 3 1) [VNil, VNil]) \<and>
   fst (exec_call first_arg (call_vm (native_lambda 3 1) [VNil, VNil])) =
     Failed (Errorf ''too few arguments'')"
  by (simp add: vm_examples call_lambda_def exec_call_def argc_def)

text \<open>
  C1, amended. For every \<open>Call\<close> whose frame holds a native lambda, with \<open>argc\<close> the
  number of values of the scope on top of the stack: the machine returns the error
  "too few arguments" if and only if \<open>argc < MinArgs\<close>; it returns the error "too many
  arguments" if and only if \<open>MinArgs \<le> argc\<close> and \<open>argc > MaxArgs\<close>; outside
  \<open>MinArgs \<le> argc \<le> MaxArgs\<close> the outcome is the same whatever the native functions
  are, that is, the native function is not invoked; inside, the native function is
  applied to that scope, its value goes to the accumulator, its error is the error of
  the machine, and without an error the frame is popped.
\<close>

theorem exec_call_arity:
  assumes "call_lambda vm = Inr l" and "Native l = Some n"
  shows "(fst (exec_call N vm) = Failed (Errorf ''too few arguments'') \<longleftrightarrow> argc vm < MinArgs l) \<and>
     (fst (exec_call N vm) = Failed (Errorf ''too many arguments'') \<longleftrightarrow>
        MinArgs l \<le> argc vm \<and> MaxArgs l < argc vm) \<and>
     (\<not> (MinArgs l \<le> argc vm \<and> argc vm \<le> MaxArgs l) \<longrightarrow> exec_call N' vm = exec_call N vm) \<and>
     (MinArgs l \<le> argc vm \<and> argc vm \<le> MaxArgs l \<longrightarrow>
        accu (snd (exec_call N vm)) = fst (N n (last (stack vm))) \<and>
        (\<forall>m. snd (N n (last (stack vm))) = Some m \<longrightarrow>
           fst (exec_call N vm) = Failed (NativeErr m)) \<and>
        (snd (N n (last (stack vm))) = None \<longrightarrow>
           exec_call N vm =
             (case popFrame (vm\<lparr>accu := fst (N n (last (stack vm)))\<rparr>) of
                Inl e \<Rightarrow> (Failed e, vm\<lparr>accu := fst (N n (last (stack vm)))\<rparr>)
              | Inr vm2 \<Rightarrow> (Running, vm2))))"
  using assms
  by (auto simp: exec_call_def argc_def Let_def split: option.splits sum.splits
      dest: popFrame_Inl popFrame_accu)

theorem exec_call_arity_witness:
  "call_lambda (call_vm (native_lambda 1 2) [VBoolean True]) = Inr (native_lambda 1 2) \<and>
   Native (native_lambda 1 2) = Some 0 \<and>
   MinArgs (native_lambda 1 2) \<le> argc (call_vm (native_lambda 1 2) [VBoolean True]) \<and>
   argc (call_vm (native_lambda 1 2) [VBoolean True]) \<le> MaxArgs (native_lambda 1 2) \<and>
   accu (snd (exec_call first_arg (call_vm (native_lambda 1 2) [VBoolean True]))) = VBoolean True \<and>
   fst (exec_call first_arg (call_vm (native_lambda 1 2) [VBoolean True])) = Running \<and>
   fst (exec_call first_arg (call_vm (native_lambda 1 2) [])) = Failed (Errorf ''too few arguments'') \<and>
   fst (exec_call first_arg (call_vm (native_lambda 1 2) [VNil, VNil, VNil])) =
     Failed (Errorf ''too many arguments'')"
proof -
  have l: "call_lambda (call_vm (native_lambda 1 2) args) = Inr (native_lambda 1 2)" for args
    by (simp add: vm_examples call_lambda_def)
  have n: "Native (native_lambda 1 2) = Some 0"
    by (simp add: vm_examples)
  have a: "argc (call_vm (native_lambda 1 2) [VBoolean True]) = 1"
    "argc (call_vm (native_lambda 1 2) []) = 0"
    "argc (call_vm (native_lambda 1 2) [VNil, VNil, VNil]) = 3"
    "MinArgs (native_lambda 1 2) = 1" "MaxArgs (native_lambda 1 2) = 2"
    by (simp_all add: vm_examples argc_def)
  have r: "first_arg 0 (last (stack (call_vm (native_lambda 1 2) [VBoolean True]))) =
      (VBoolean True, None)"
    by (simp add: vm_examples)
  have p: "popFrame (call_vm (native_lambda 1 2) [VBoolean True]\<lparr>accu := VBoolean True\<rparr>) =
      Inr (empty_vm\<lparr>stack := [[VFrame \<lparr>Next = 0, Lambda = None, Toplevel = True\<rparr>]],
                     fp := 0, accu := VBoolean True\<rparr>)"
    by (simp add: vm_examples popFrame_def frame_of_def)
  from exec_call_arity [OF l n, of first_arg "[VBoolean True]"]
    exec_call_arity [OF l n, of first_arg "[]"]
    exec_call_arity [OF l n, of first_arg "[VNil, VNil, VNil]"] l n a r p
  show ?thesis by simp
qed

section \<open>The virtual machine: the frame invariant\<close>

lemma frame_of_Some_range: "frame_of st i = Some f \<Longrightarrow> 0 \<le> i \<and> i < int (length st)"
  by (simp add: frame_of_def split: if_splits)

lemma frame_chain_frame: "frame_chain st i \<Longrightarrow> \<exists>f. frame_of st i = Some f"
  by (erule frame_chain.cases) auto

lemma frame_chain_same_below:
  "frame_chain st i \<Longrightarrow> (\<And>j. 0 \<le> j \<Longrightarrow> j \<le> i \<Longrightarrow> frame_of st' j = frame_of st j) \<Longrightarrow>
   frame_chain st' i"
proof (induction rule: frame_chain.induct)
  case (bottom f)
  then show ?case by (auto intro: frame_chain.bottom)
next
  case (link i f)
  have "0 \<le> Next f"
    using link.hyps(4) frame_chain_frame frame_of_Some_range by blast
  moreover have "frame_chain st' (Next f)"
    using link.hyps(1,3) by (intro link.IH link.prems) simp_all
  ultimately show ?case
    using link.hyps(1,2,3) link.prems [of i] by (auto intro: frame_chain.link)
qed

lemma frame_of_append: "i < int (length st) \<Longrightarrow> frame_of (st @ xs) i = frame_of st i"
  by (auto simp: frame_of_def nth_append nat_less_iff)

lemma frame_of_take: "i < int n \<Longrightarrow> n \<le> length st \<Longrightarrow> frame_of (take n st) i = frame_of st i"
  by (auto simp: frame_of_def)

lemma frame_of_update: "i < j \<Longrightarrow> frame_of (st[nat j := x]) i = frame_of st i"
  by (auto simp: frame_of_def)

lemma frame_chain_range: "frame_chain st i \<Longrightarrow> 0 \<le> i \<and> i < int (length st)"
  using frame_chain_frame frame_of_Some_range by blast

lemma frames_ok_fp_ok: "frames_ok vm \<Longrightarrow> fp_ok vm"
  by (auto simp: frames_ok_def fp_ok_def dest: frame_chain_frame)

lemma fresh_frames_ok: "stack vm = [] \<Longrightarrow> fp vm = 0 \<Longrightarrow> frames_ok vm"
  by (simp add: frames_ok_def frame_of_def)

lemma pushFrame_eq:
  "pushFrame l t vm = Inr vm' \<Longrightarrow>
     vm' = vm\<lparr>fp := int (length (stack vm)),
              stack := stack vm @ [[VFrame \<lparr>Next = fp vm, Lambda = l, Toplevel = t\<rparr>]]\<rparr> \<and>
     (fp vm < int (length (stack vm)) \<longrightarrow> frame_of (stack vm) (fp vm) \<noteq> None)"
  by (simp add: pushFrame_def Let_def split: if_splits)

lemma pushFrame_top:
  "pushFrame l t vm = Inr vm' \<Longrightarrow>
     frame_of (stack vm') (fp vm') = Some \<lparr>Next = fp vm, Lambda = l, Toplevel = t\<rparr>"
  by (auto dest!: pushFrame_eq simp: frame_of_def)

lemma pushFrame_frames_ok:
  assumes "frames_ok vm" "pushFrame l t vm = Inr vm'"
  shows "frames_ok vm'"
proof -
  let ?f = "\<lparr>Next = fp vm, Lambda = l, Toplevel = t\<rparr>"
  note eq = pushFrame_eq [OF assms(2)]
  have top: "frame_of (stack vm') (fp vm') = Some ?f"
    using assms(2) by (rule pushFrame_top)
  from assms(1) have "frame_chain (stack vm') (fp vm')" unfolding frames_ok_def
  proof
    assume c: "frame_chain (stack vm) (fp vm)"
    then have r: "0 \<le> fp vm \<and> fp vm < int (length (stack vm))"
      by (rule frame_chain_range)
    have "frame_chain (stack vm') (fp vm)"
      using c by (rule frame_chain_same_below) (use r eq in \<open>simp add: frame_of_append\<close>)
    then show ?thesis
      using top r eq by (rule_tac f = ?f in frame_chain.link) auto
  next
    assume z: "fp vm = 0 \<and> frame_of (stack vm) 0 = None"
    with eq have "stack vm = []" by auto
    with z eq have "fp vm' = 0" by simp
    with top z show ?thesis by (auto intro: frame_chain.bottom)
  qed
  then show ?thesis by (simp add: frames_ok_def)
qed

lemma popFrame_eq:
  "popFrame vm = Inr vm' \<Longrightarrow>
     \<exists>f. frame_of (stack vm) (fp vm) = Some f \<and>
         vm' = vm\<lparr>stack := take (nat (fp vm)) (stack vm), fp := Next f\<rparr>"
  by (auto simp: popFrame_def split: option.splits)

lemma popFrame_frames_ok:
  assumes "frames_ok vm" "popFrame vm = Inr vm'"
  shows "frames_ok vm'"
proof -
  from popFrame_eq [OF assms(2)] obtain f where f: "frame_of (stack vm) (fp vm) = Some f"
    and vm': "vm' = vm\<lparr>stack := take (nat (fp vm)) (stack vm), fp := Next f\<rparr>"
    by blast
  from f have r: "0 \<le> fp vm \<and> fp vm < int (length (stack vm))"
    by (rule frame_of_Some_range)
  from assms(1) f have "frame_chain (stack vm) (fp vm)"
    by (auto simp: frames_ok_def)
  then show ?thesis
  proof (cases rule: frame_chain.cases)
    case (bottom g)
    then show ?thesis using f by (simp add: vm' frames_ok_def frame_of_def)
  next
    case (link g)
    then have g: "Next f < fp vm" "frame_chain (stack vm) (Next f)"
      using f by auto
    have "frame_chain (take (nat (fp vm)) (stack vm)) (Next f)"
      using g(2)
    proof (rule frame_chain_same_below)
      fix j assume "0 \<le> j" "j \<le> Next f"
      then show "frame_of (take (nat (fp vm)) (stack vm)) j = frame_of (stack vm) j"
        using g(1) r by (intro frame_of_take) simp_all
    qed
    then show ?thesis by (simp add: vm' frames_ok_def)
  qed
qed

lemma frames_ok_same_below:
  assumes "frames_ok vm" "fp vm' = fp vm"
    and "\<And>j. 0 \<le> j \<Longrightarrow> j \<le> fp vm \<Longrightarrow> frame_of (stack vm') j = frame_of (stack vm) j"
  shows "frames_ok vm'"
  using assms(1) unfolding frames_ok_def
proof
  assume c: "frame_chain (stack vm) (fp vm)"
  then have "frame_chain (stack vm') (fp vm)"
    by (rule frame_chain_same_below) (simp add: assms(3))
  then show "frame_chain (stack vm') (fp vm') \<or> fp vm' = 0 \<and> frame_of (stack vm') 0 = None"
    by (simp add: assms(2))
next
  assume "fp vm = 0 \<and> frame_of (stack vm) 0 = None"
  then show "frame_chain (stack vm') (fp vm') \<or> fp vm' = 0 \<and> frame_of (stack vm') 0 = None"
    using assms(2) assms(3) [of 0] by simp
qed

lemma frame_of_push_scope:
  "0 \<le> j \<Longrightarrow> frame_of (st @ [replicate n VNil]) j = frame_of st j"
  by (cases n) (auto simp: frame_of_def nth_append nat_less_iff)

lemma pushScope_frames_ok:
  assumes "frames_ok vm" "pushScope n vm = Inr vm'"
  shows "frames_ok vm'"
proof -
  have vm': "vm' = vm\<lparr>stack := stack vm @ [replicate (nat n) VNil]\<rparr>"
    using assms(2) by (simp add: pushScope_def split: if_splits)
  show ?thesis
    using assms(1) by (rule frames_ok_same_below) (simp_all add: vm' frame_of_push_scope)
qed

lemma exec_local_set_frames_ok:
  assumes "frames_ok vm" "exec_local_set instr vm = (s, vm')" "0 \<le> I instr"
  shows "frames_ok vm'"
proof (cases "s = Running")
  case True
  then have vm': "vm' = vm\<lparr>stack := (stack vm)[nat (fp vm + 1 + I instr) :=
      (stack vm ! nat (fp vm + 1 + I instr))[nat (J instr) := accu vm]]\<rparr>"
    using assms(2) by (auto simp: exec_local_set_def Let_def split: if_splits)
  show ?thesis
    using assms(1)
  proof (rule frames_ok_same_below)
    show "fp vm' = fp vm" by (simp add: vm')
    fix j assume "0 \<le> j" "j \<le> fp vm"
    then show "frame_of (stack vm') j = frame_of (stack vm) j"
      using assms(3) by (simp add: vm' frame_of_update)
  qed
next
  case False
  then have "vm' = vm"
    using assms(2) by (auto simp: exec_local_set_def Let_def split: if_splits)
  then show ?thesis using assms(1) by simp
qed

lemma frames_ok_accu: "frames_ok (vm\<lparr>accu := v\<rparr>) = frames_ok vm"
  by (simp add: frames_ok_def)

lemma frames_ok_pc: "frames_ok (vm\<lparr>pc := v\<rparr>) = frames_ok vm"
  by (simp add: frames_ok_def)

lemma frames_ok_globals: "frames_ok (vm\<lparr>globals := v\<rparr>) = frames_ok vm"
  by (simp add: frames_ok_def)

lemma exec_call_frames_ok:
  assumes "frames_ok vm" "exec_call N vm = (s, vm')"
  shows "frames_ok vm'"
  using assms
  by (auto simp: exec_call_def Let_def frames_ok_accu
      split: sum.splits if_splits option.splits
      dest: popFrame_frames_ok [rotated])

lemma exec_frames_ok:
  assumes "Op instr = OpLocalSet \<longrightarrow> 0 \<le> I instr" "frames_ok vm" "exec N instr vm = (s, vm')"
  shows "frames_ok vm'"
proof (cases "Op instr")
  case OpLocalSet
  then show ?thesis
    using assms by (auto simp: exec_def intro: exec_local_set_frames_ok)
next
  case OpCall
  then show ?thesis
    using assms by (auto simp: exec_def intro: exec_call_frames_ok)
next
  case OpPushF
  then show ?thesis
    using assms
    by (auto simp: exec_def split: Value.splits sum.splits intro: pushFrame_frames_ok)
next
  case OpPushS
  then show ?thesis
    using assms by (auto simp: exec_def split: sum.splits intro: pushScope_frames_ok)
next
  case OpHalt
  then show ?thesis
    using assms by (auto simp: exec_def split: sum.splits intro: popFrame_frames_ok)
qed (use assms in \<open>auto simp: exec_def frames_ok_accu frames_ok_globals
       split: option.splits if_splits\<close>)

lemma step_frames_ok:
  assumes "local_sets_above_frame code" "frames_ok vm" "step N code vm = (s, vm')"
  shows "frames_ok vm'"
proof (cases "0 \<le> pc vm \<and> pc vm < int (length code)")
  case False
  then have "step N code vm = (Failed Panic, vm)" by (auto simp: step_def)
  then show ?thesis using assms by simp
next
  case True
  then have "nat (pc vm) < length code" by (simp add: nat_less_iff)
  then have "code ! nat (pc vm) \<in> set code" by (rule nth_mem)
  then have ls: "Op (code ! nat (pc vm)) = OpLocalSet \<longrightarrow> 0 \<le> I (code ! nat (pc vm))"
    using assms(1) by (simp add: local_sets_above_frame_def)
  have "exec N (code ! nat (pc vm)) (vm\<lparr>pc := pc vm + 1\<rparr>) = (s, vm')"
    using assms(3) True by (simp add: step_def)
  from exec_frames_ok [OF ls _ this] show ?thesis
    by (simp add: frames_ok_pc assms(2))
qed

lemma reachable_frames_ok:
  "reachable N code vm \<Longrightarrow> local_sets_above_frame code \<Longrightarrow> frames_ok vm"
  by (induction rule: reachable.induct)
     (auto intro: fresh_frames_ok pushFrame_frames_ok step_frames_ok)

text \<open>
  C2, as stated, fails on the code: \<open>OpLocalSet\<close> with the first operand \<open>-1\<close> writes the
  accumulator over the frame that \<open>fp\<close> indexes. After the four instructions of
  \<open>bad_code\<close>, \<open>fp\<close> is 1 and the scope at index 1 holds a boolean.
\<close>

theorem frame_overwritten_by_local_set:
  "reachable first_arg bad_code
     (empty_vm\<lparr>pc := 4, fp := 1, accu := VBoolean True,
        stack := [[VFrame \<lparr>Next = 0, Lambda = None, Toplevel = True\<rparr>], [VBoolean True]]\<rparr>) \<and>
   \<not> fp_ok
     (empty_vm\<lparr>pc := 4, fp := 1, accu := VBoolean True,
        stack := [[VFrame \<lparr>Next = 0, Lambda = None, Toplevel = True\<rparr>], [VBoolean True]]\<rparr>)"
proof -
  have r0: "reachable first_arg bad_code empty_vm"
    by (rule reachable.fresh) (simp_all add: empty_vm_def)
  have r1: "reachable first_arg bad_code
      (empty_vm\<lparr>stack := [[VFrame \<lparr>Next = 0, Lambda = None, Toplevel = True\<rparr>]]\<rparr>)"
    by (rule reachable.enter [OF r0]) (simp add: vm_examples step_eval)
  have r2: "reachable first_arg bad_code
      (empty_vm\<lparr>pc := 1, accu := VLambda (native_lambda 0 0),
         stack := [[VFrame \<lparr>Next = 0, Lambda = None, Toplevel = True\<rparr>]]\<rparr>)"
    by (rule reachable.turn [OF r1, where s = Running])
       (simp add: vm_examples bad_code_def step_eval)
  have r3: "reachable first_arg bad_code
      (empty_vm\<lparr>pc := 2, fp := 1, accu := VLambda (native_lambda 0 0),
         stack := [[VFrame \<lparr>Next = 0, Lambda = None, Toplevel = True\<rparr>],
                   [VFrame \<lparr>Next = 0, Lambda = Some (native_lambda 0 0), Toplevel = False\<rparr>]]\<rparr>)"
    by (rule reachable.turn [OF r2, where s = Running])
       (simp add: vm_examples bad_code_def step_eval)
  have r4: "reachable first_arg bad_code
      (empty_vm\<lparr>pc := 3, fp := 1, accu := VBoolean True,
         stack := [[VFrame \<lparr>Next = 0, Lambda = None, Toplevel = True\<rparr>],
                   [VFrame \<lparr>Next = 0, Lambda = Some (native_lambda 0 0), Toplevel = False\<rparr>]]\<rparr>)"
    by (rule reachable.turn [OF r3, where s = Running])
       (simp add: vm_examples bad_code_def step_eval)
  have r5: "reachable first_arg bad_code
      (empty_vm\<lparr>pc := 4, fp := 1, accu := VBoolean True,
        stack := [[VFrame \<lparr>Next = 0, Lambda = None, Toplevel = True\<rparr>], [VBoolean True]]\<rparr>)"
    by (rule reachable.turn [OF r4, where s = Running])
       (simp add: vm_examples bad_code_def step_eval)
  have "\<not> fp_ok
     (empty_vm\<lparr>pc := 4, fp := 1, accu := VBoolean True,
        stack := [[VFrame \<lparr>Next = 0, Lambda = None, Toplevel = True\<rparr>], [VBoolean True]]\<rparr>)"
    by (simp add: fp_ok_def frame_of_def empty_vm_def)
  with r5 show ?thesis by simp
qed

text \<open>
  C2, amended. For code whose \<open>OpLocalSet\<close> instructions all have a first operand
  \<open>I \<ge> 0\<close>, at every state reached by \<open>Execute\<close> from a machine with an empty stack,
  and at the state every instruction leaves, also when it fails: \<open>fp\<close> is 0 or indexes
  a scope of the stack holding exactly one value, a frame. \<open>pushFrame\<close>, when it does
  not panic, leaves \<open>fp\<close> at a scope holding exactly the frame it made, and
  \<open>popFrame\<close>, when it does not panic, leaves a state with the property.
\<close>

theorem frame_pointer_invariant:
  assumes "local_sets_above_frame code" and "reachable N code vm"
  shows "fp_ok vm \<and>
    (\<forall>s vm'. step N code vm = (s, vm') \<longrightarrow> fp_ok vm') \<and>
    (\<forall>l t vm'. pushFrame l t vm = Inr vm' \<longrightarrow>
       frame_of (stack vm') (fp vm') = Some \<lparr>Next = fp vm, Lambda = l, Toplevel = t\<rparr> \<and> fp_ok vm') \<and>
    (\<forall>vm'. popFrame vm = Inr vm' \<longrightarrow> fp_ok vm')"
proof -
  have ok: "frames_ok vm" using assms(2,1) by (rule reachable_frames_ok)
  show ?thesis
    using ok assms(1)
    by (auto intro: frames_ok_fp_ok step_frames_ok pushFrame_frames_ok popFrame_frames_ok
        pushFrame_top)
qed

theorem frame_pointer_invariant_witness:
  "local_sets_above_frame good_code \<and>
   reachable first_arg good_code
     (empty_vm\<lparr>pc := 2, fp := 1, accu := VLambda (native_lambda 1 1),
        stack := [[VFrame \<lparr>Next = 0, Lambda = None, Toplevel = True\<rparr>],
                  [VFrame \<lparr>Next = 0, Lambda = Some (native_lambda 1 1), Toplevel = False\<rparr>]]\<rparr>) \<and>
   fp_ok
     (empty_vm\<lparr>pc := 2, fp := 1, accu := VLambda (native_lambda 1 1),
        stack := [[VFrame \<lparr>Next = 0, Lambda = None, Toplevel = True\<rparr>],
                  [VFrame \<lparr>Next = 0, Lambda = Some (native_lambda 1 1), Toplevel = False\<rparr>]]\<rparr>)"
proof -
  have wf: "local_sets_above_frame good_code"
    by (simp add: local_sets_above_frame_def good_code_def mk_instr_def)
  have r0: "reachable first_arg good_code empty_vm"
    by (rule reachable.fresh) (simp_all add: empty_vm_def)
  have r1: "reachable first_arg good_code
      (empty_vm\<lparr>stack := [[VFrame \<lparr>Next = 0, Lambda = None, Toplevel = True\<rparr>]]\<rparr>)"
    by (rule reachable.enter [OF r0]) (simp add: vm_examples step_eval)
  have r2: "reachable first_arg good_code
      (empty_vm\<lparr>pc := 1, accu := VLambda (native_lambda 1 1),
         stack := [[VFrame \<lparr>Next = 0, Lambda = None, Toplevel = True\<rparr>]]\<rparr>)"
    by (rule reachable.turn [OF r1, where s = Running])
       (simp add: vm_examples good_code_def step_eval)
  have r3: "reachable first_arg good_code
      (empty_vm\<lparr>pc := 2, fp := 1, accu := VLambda (native_lambda 1 1),
         stack := [[VFrame \<lparr>Next = 0, Lambda = None, Toplevel = True\<rparr>],
                   [VFrame \<lparr>Next = 0, Lambda = Some (native_lambda 1 1), Toplevel = False\<rparr>]]\<rparr>)"
    by (rule reachable.turn [OF r2, where s = Running])
       (simp add: vm_examples good_code_def step_eval)
  from frame_pointer_invariant [OF wf r3] wf r3 show ?thesis by simp
qed

section \<open>Global lookup\<close>

text \<open>
  C4, as stated, fails on the code: the instruction \<open>Global\<close> of the virtual machine
  has no failure for an undefined symbol. Run on a machine where \<open>x\<close> has no global
  value, the program "Global x; Halt" returns the value \<^verbatim>\<open>nil\<close> and no error.
\<close>

theorem Global_of_undefined_symbol_is_nil:
  "Execute first_arg [mk_instr OpGlobal VNil 0 0 (Some ''x''), mk_instr OpHalt VNil 0 0 None] empty_vm =
     (Inr VNil, empty_vm\<lparr>pc := 2\<rparr>)"
  unfolding Execute_def
  apply (simp add: vm_examples step_eval)
  apply (subst Execute_loop.simps)
  apply (simp add: vm_examples step_eval)
  apply (subst Execute_loop.simps)
  apply (simp add: vm_examples step_eval)
  done

text \<open>
  C4, amended. Executing \<open>Global\<close> with a symbol sets the accumulator to the \<open>Global\<close>
  field of the symbol and goes on, whatever that field holds: for a symbol without a
  global value the accumulator becomes \<^verbatim>\<open>nil\<close> and no error is raised. The
  embedder-level \<open>Global(name)\<close> returns an error exactly when the name has no interned
  symbol carrying the \<open>Defined\<close> flag, and the symbol's global value otherwise.
\<close>

theorem Global_lookup:
  "(Op ins = OpGlobal \<and> Sym ins = Some s \<longrightarrow>
      exec N ins vm = (Running, vm\<lparr>accu := globals vm s\<rparr>)) \<and>
   ((\<exists>e. Scheme_Global FlagDefined syms name = Inl e) \<longleftrightarrow>
      \<not> (\<exists>ident. syms name = Some ident \<and> Flags ident AND FlagDefined \<noteq> 0)) \<and>
   (\<forall>ident. syms name = Some ident \<and> Flags ident AND FlagDefined \<noteq> 0 \<longrightarrow>
      Scheme_Global FlagDefined syms name = Inr (Global ident))"
  by (auto simp: exec_def Scheme_Global_def split: option.splits)

theorem Global_lookup_witness:
  "exec first_arg (mk_instr OpGlobal VNil 0 0 (Some ''x'')) empty_vm = (Running, empty_vm) \<and>
   Scheme_Global 1 [''x'' \<mapsto> \<lparr>Name = ''x'', Global = VBoolean True, Flags = 1\<rparr>] ''x'' =
     Inr (VBoolean True) \<and>
   (\<exists>e. Scheme_Global 1 [''x'' \<mapsto> \<lparr>Name = ''x'', Global = VBoolean True, Flags = 2\<rparr>] ''x'' = Inl e) \<and>
   (\<exists>e. Scheme_Global 1 Map.empty ''x'' = Inl e)"
proof -
  have i: "Op (mk_instr OpGlobal VNil 0 0 (Some ''x'')) = OpGlobal \<and>
           Sym (mk_instr OpGlobal VNil 0 0 (Some ''x'')) = Some ''x''"
    by (simp add: mk_instr_def)
  have u: "empty_vm\<lparr>accu := globals empty_vm ''x''\<rparr> = empty_vm"
    by (simp add: empty_vm_def)
  have d: "[''x'' \<mapsto> \<lparr>Name = ''x'', Global = VBoolean True, Flags = 1\<rparr>] ''x'' =
             Some \<lparr>Name = ''x'', Global = VBoolean True, Flags = 1\<rparr> \<and>
           Flags \<lparr>Name = ''x'', Global = VBoolean True, Flags = 1::64 word\<rparr> AND 1 \<noteq> 0"
    by simp
  have n: "\<not> (\<exists>ident. [''x'' \<mapsto> \<lparr>Name = ''x'', Global = VBoolean True, Flags = 2\<rparr>] ''x'' = Some ident \<and>
             Flags ident AND (1::64 word) \<noteq> 0)"
    by simp
  have m: "\<not> (\<exists>ident. (Map.empty :: symbols) ''x'' = Some ident \<and> Flags ident AND (1::64 word) \<noteq> 0)"
    by simp
  from Global_lookup [of "mk_instr OpGlobal VNil 0 0 (Some ''x'')" "''x''" first_arg empty_vm 1
      "[''x'' \<mapsto> \<lparr>Name = ''x'', Global = VBoolean True, Flags = 1\<rparr>]" "''x''"]
    Global_lookup [of "mk_instr OpGlobal VNil 0 0 (Some ''x'')" "''x''" first_arg empty_vm 1
      "[''x'' \<mapsto> \<lparr>Name = ''x'', Global = VBoolean True, Flags = 2\<rparr>]" "''x''"]
    Global_lookup [of "mk_instr OpGlobal VNil 0 0 (Some ''x'')" "''x''" first_arg empty_vm 1
      "Map.empty" "''x''"]
    i u d n m
  show ?thesis by simp
qed

section \<open>Bytecode emission of let\<close>

subsection \<open>Every Bytecode method only appends to the code\<close>






















subsection \<open>A sequence of actions, item by item\<close>


subsection \<open>The method of a let form as the items of its emission\<close>





subsection \<open>The instructions of an emission without error\<close>








subsection \<open>What the method of a let form emits\<close>




end
